theory Spec2Isabelle
  imports Main
begin

section \<open>Exceptions, contexts and the host application\<close>

text \<open>
  Python exceptions are values. \<open>TankEngineInitError\<close> is a subclass of \<open>TankError\<close>
  in the pipeline library, which \<open>is_TankError\<close> records. \<open>SystemExit\<close>,
  \<open>KeyboardInterrupt\<close> and \<open>GeneratorExit\<close> derive from \<^verbatim>\<open>BaseException\<close> only, so
  \<^verbatim>\<open>except Exception\<close> does not catch them; every other class, \<open>OtherError\<close>
  included, is a subclass of \<^verbatim>\<open>Exception\<close>.
\<close>

datatype exc_class =
  TankError | TankEngineInitError | RuntimeError | AttributeError | TypeError
  | SystemExit | KeyboardInterrupt | GeneratorExit
  | OtherError string

datatype exn = Exn (exc_type: exc_class) (exc_value: string) (exc_traceback: "string list")

fun class_str :: "exc_class \<Rightarrow> string" where
  "class_str TankError = ''<class '' @ [CHR 0x27] @ ''tank.errors.TankError'' @ [CHR 0x27] @ ''>''"
| "class_str TankEngineInitError =
     ''<class '' @ [CHR 0x27] @ ''tank.platform.errors.TankEngineInitError'' @ [CHR 0x27] @ ''>''"
| "class_str RuntimeError = ''<type '' @ [CHR 0x27] @ ''exceptions.RuntimeError'' @ [CHR 0x27] @ ''>''"
| "class_str AttributeError =
     ''<type '' @ [CHR 0x27] @ ''exceptions.AttributeError'' @ [CHR 0x27] @ ''>''"
| "class_str TypeError = ''<type '' @ [CHR 0x27] @ ''exceptions.TypeError'' @ [CHR 0x27] @ ''>''"
| "class_str SystemExit = ''<type '' @ [CHR 0x27] @ ''exceptions.SystemExit'' @ [CHR 0x27] @ ''>''"
| "class_str KeyboardInterrupt =
     ''<type '' @ [CHR 0x27] @ ''exceptions.KeyboardInterrupt'' @ [CHR 0x27] @ ''>''"
| "class_str GeneratorExit =
     ''<type '' @ [CHR 0x27] @ ''exceptions.GeneratorExit'' @ [CHR 0x27] @ ''>''"
| "class_str (OtherError k) = k"

text \<open>\<^verbatim>\<open>isinstance(e, Exception)\<close>, the test of the clause at line 89.\<close>

definition is_Exception :: "exn \<Rightarrow> bool" where
  "is_Exception e = (exc_type e \<notin> set [SystemExit, KeyboardInterrupt, GeneratorExit])"

definition is_TankError :: "exn \<Rightarrow> bool" where
  "is_TankError e = (exc_type e = TankError \<or> exc_type e = TankEngineInitError)"

definition is_TankEngineInitError :: "exn \<Rightarrow> bool" where
  "is_TankEngineInitError e = (exc_type e = TankEngineInitError)"

type_synonym entity_ref = "string \<times> int"

record pcontext =
  project :: "entity_ref option"
  entity :: "entity_ref option"
  step :: "entity_ref option"
  task :: "entity_ref option"

datatype tk = Tk string

record engine =
  instance_name :: string
  eng_tank :: tk
  eng_context :: pcontext
  menu_handle :: "string option"

datatype event = SceneOpened | SceneSaved

text \<open>
  A registered \<^verbatim>\<open>scriptJob(event=[ev, cb_fn], runOnce=True)\<close>; the closure \<open>cb_fn\<close>
  is \<open>on_scene_event_cb(en, pc)\<close>, so the job is the event with the two captured values.
\<close>

type_synonym script_job = "event \<times> string \<times> pcontext"

text \<open>Calls made to the pipeline library, in order of occurrence. \<open>CallStartEngine\<close> also
  records the engine that was current when the call was made.\<close>

datatype call =
  CallTankFromPath string
  | CallContextFromPath string pcontext
  | CallDestroy engine
  | CallStartEngine string tk pcontext "engine option"

record host =
  current_engine :: "engine option"
  menus :: "string list"
  menu_items :: "(string \<times> string) list"
  scene_name :: string
  script_jobs :: "script_job list"
  maya_project :: "string option"
  info :: "string list"
  warnings :: "string list"
  errors :: "string list"
  calls :: "call list"

text \<open>
  The collaborators outside this file (pipeline library, host queries, string
  formatting), taken as parameters.
\<close>

record env =
  tank_from_path :: "string \<Rightarrow> exn + tk"
  context_from_path :: "tk \<Rightarrow> string \<Rightarrow> pcontext \<Rightarrow> exn + pcontext"
  engine_lookup :: "string \<Rightarrow> tk \<Rightarrow> pcontext \<Rightarrow> exn option"
  load_apps :: "string \<Rightarrow> tk \<Rightarrow> pcontext \<Rightarrow> exn option"
  paths_from_entity :: "tk \<Rightarrow> string \<Rightarrow> int \<Rightarrow> string list"
  template_project :: "string option"
  project_path :: "tk \<Rightarrow> string \<Rightarrow> pcontext \<Rightarrow> exn + string"
  about_os :: string
  about_version :: string
  about_batch :: bool
  debug_logging :: bool
  abspath :: "string \<Rightarrow> string"
  str_engine :: "engine \<Rightarrow> string"
  str_context :: "pcontext \<Rightarrow> string"
  pyside_present :: bool
  sys_platform :: string
  pyside_import_error :: "string option"
  wrap :: "string \<Rightarrow> string list"

type_synonym outcome = "exn option \<times> host"

definition seq :: "outcome \<Rightarrow> (host \<Rightarrow> outcome) \<Rightarrow> outcome" where
  "seq r f = (case r of (None, h) \<Rightarrow> f h | (Some e, h) \<Rightarrow> (Some e, h))"

definition displayInfo :: "string \<Rightarrow> host \<Rightarrow> host" where
  "displayInfo l h = h\<lparr>info := info h @ [l]\<rparr>"

definition displayWarning :: "string \<Rightarrow> host \<Rightarrow> host" where
  "displayWarning l h = h\<lparr>warnings := warnings h @ [l]\<rparr>"

definition displayError :: "string \<Rightarrow> host \<Rightarrow> host" where
  "displayError l h = h\<lparr>errors := errors h @ [l]\<rparr>"

definition menu_exists :: "string \<Rightarrow> host \<Rightarrow> bool" where
  "menu_exists n h = (n \<in> set (menus h))"

text \<open>\<^verbatim>\<open>pm.deleteUI(n)\<close>: the host raises when no such object exists.\<close>

definition deleteUI :: "string \<Rightarrow> host \<Rightarrow> outcome" where
  "deleteUI n h =
     (if menu_exists n h
      then (None, h\<lparr>menus := removeAll n (menus h),
                     menu_items := filter (\<lambda>(p, l). p \<noteq> n) (menu_items h)\<rparr>)
      else (Some (Exn RuntimeError (''Object '' @ n @ '' not found.'') []), h))"

text \<open>\<^verbatim>\<open>pm.menu(n, label=..., parent=...)\<close>: the named menu exists afterwards.\<close>

definition menu_create :: "string \<Rightarrow> host \<Rightarrow> host" where
  "menu_create n h = h\<lparr>menus := List.insert n (menus h)\<rparr>"

definition menuItem :: "string \<Rightarrow> string \<Rightarrow> host \<Rightarrow> host" where
  "menuItem l p h = h\<lparr>menu_items := menu_items h @ [(p, l)]\<rparr>"

definition scriptJob :: "event \<Rightarrow> string \<Rightarrow> pcontext \<Rightarrow> host \<Rightarrow> host" where
  "scriptJob ev en pc h = h\<lparr>script_jobs := script_jobs h @ [(ev, en, pc)]\<rparr>"

definition record_call :: "call \<Rightarrow> host \<Rightarrow> host" where
  "record_call c h = h\<lparr>calls := calls h @ [c]\<rparr>"

section \<open>The disabled menu\<close>

definition create_tank_disabled_menu :: "host \<Rightarrow> outcome" where
  "create_tank_disabled_menu h =
     seq (if menu_exists ''TankMenu'' h then deleteUI ''TankMenu'' h else (None, h))
       (\<lambda>h1. (None, menuItem ''Tank is disabled.'' ''TankMenuDisabled''
                       (menu_create ''TankMenuDisabled'' h1)))"

section \<open>The engine\<close>

definition log_debug :: "env \<Rightarrow> engine \<Rightarrow> string \<Rightarrow> host \<Rightarrow> host" where
  "log_debug E self msg h =
     (if debug_logging E
      then foldl (\<lambda>h l. displayInfo l h) h (wrap E (str_engine E self @ '' DEBUG: '' @ msg))
      else h)"

definition log_info :: "env \<Rightarrow> string \<Rightarrow> host \<Rightarrow> host" where
  "log_info E msg h = foldl (\<lambda>h l. displayInfo l h) h (wrap E (''Tank: '' @ msg))"

definition log_warning :: "env \<Rightarrow> string \<Rightarrow> host \<Rightarrow> host" where
  "log_warning E msg h = foldl (\<lambda>h l. displayWarning l h) h (wrap E (''Tank: '' @ msg))"

definition log_error :: "string \<Rightarrow> host \<Rightarrow> host" where
  "log_error msg h = displayError (''Tank: '' @ msg) h"

definition set_project :: "env \<Rightarrow> engine \<Rightarrow> host \<Rightarrow> outcome" where
  "set_project E self h =
     (case template_project E of
        None \<Rightarrow> (None, h)
      | Some setting \<Rightarrow>
          (case project_path E (eng_tank self) setting (eng_context self) of
             Inl e \<Rightarrow> (Some e, h)
           | Inr proj_path \<Rightarrow>
               (None, (log_info E (''Setting Maya project to '' @ [CHR 0x27] @ proj_path @ [CHR 0x27]) h)
                        \<lparr>maya_project := Some proj_path\<rparr>)))"

definition startswith :: "string \<Rightarrow> string \<Rightarrow> bool" where
  "startswith s p = (take (length p) s = p)"

definition has_ui :: "env \<Rightarrow> bool" where
  "has_ui E = (if about_batch E then False else True)"

text \<open>
  \<^verbatim>\<open>_init_pyside\<close> edits the interpreter's import path, which is not part of this
  state, and swallows its own exceptions; what remains are its log lines.
\<close>

definition init_pyside :: "env \<Rightarrow> engine \<Rightarrow> host \<Rightarrow> host" where
  "init_pyside E self h0 =
     (if pyside_present E
      then log_debug E self ''PySide detected - Tank will use the existing version.'' h0
      else
        let h1 = log_debug E self ''PySide not detected - Tank will add it to the setup now...'' h0;
            h2 = (if sys_platform E = ''darwin'' then h1
                  else if sys_platform E = ''win32'' then h1
                  else if sys_platform E = ''linux2'' then h1
                  else log_error ''Unknown platform - cannot initialize PySide!'' h1)
        in case pyside_import_error E of
             None \<Rightarrow> h2
           | Some e \<Rightarrow>
               log_error (''PySide could not be imported! Tank Apps using pyside will not operate correctly! Error reported: '' @ e) h2)"

definition init_engine :: "env \<Rightarrow> engine \<Rightarrow> host \<Rightarrow> outcome" where
  "init_engine E self h0 =
     (let h1 = log_debug E self (str_engine E self @ '': Initializing...'') h0 in
      if about_os E \<notin> set [''mac'', ''win64'', ''linux64'']
      then (Some (Exn TankError ''The current platform is not supported! Supported platforms are Mac, Linux 64 and Windows 64.'' []), h1)
      else if \<not> (startswith (about_version E) ''2012'' \<or> startswith (about_version E) ''2013'')
      then (Some (Exn TankError ''Your version of Maya is not supported. Currently, Tank only supports 2012 and 2013.'' []), h1)
      else
        let h2 = log_debug E self (''Running Maya version '' @ about_version E) h1 in
        (case (case entity (eng_context self) of
                 Some (ty, i) \<Rightarrow> Some (paths_from_entity E (eng_tank self) ty i)
               | None \<Rightarrow>
                  (case project (eng_context self) of
                     Some (ty, i) \<Rightarrow> Some (paths_from_entity E (eng_tank self) ty i)
                   | None \<Rightarrow> None)) of
           None \<Rightarrow>
             (Some (Exn TankError (''The Tank engine needs at least a project in the context in order to start! Your context: '' @ str_context E (eng_context self)) []), h2)
         | Some locations \<Rightarrow>
             if length locations = 0
             then (Some (Exn TankError ''No folders on disk are associated with the current context. The engine requires a context which exists on disk in order to run correctly.'' []), h2)
             else
               seq (set_project E self h2)
                 (\<lambda>h3. (None,
                    log_debug E self ''Registered open and save callbacks.''
                      (scriptJob SceneSaved (instance_name self) (eng_context self)
                        (scriptJob SceneOpened (instance_name self) (eng_context self)
                          (init_pyside E self h3)))))))"

definition post_app_init :: "env \<Rightarrow> engine \<Rightarrow> host \<Rightarrow> engine \<times> host" where
  "post_app_init E self h =
     (if has_ui E
      then (self\<lparr>menu_handle := Some ''TankMenu''\<rparr>, menu_create ''TankMenu'' h)
      else (self, h))"

definition destroy_engine :: "env \<Rightarrow> engine \<Rightarrow> host \<Rightarrow> outcome" where
  "destroy_engine E self h0 =
     (let h1 = log_debug E self (str_engine E self @ '': Destroying...'') h0 in
      case menu_handle self of
        None \<Rightarrow> (Some (Exn AttributeError ''_menu_handle'' []), h1)
      | Some m \<Rightarrow> deleteUI m h1)"

text \<open>
  Modelled from the spec: \<^verbatim>\<open>Engine.destroy()\<close> and \<^verbatim>\<open>tank.platform.start_engine\<close>
  belong to the pipeline library, whose source is not part of this repository.
  \<open>destroy\<close> releases the engine's menu through this file's \<open>destroy_engine\<close> and then
  clears the current engine. \<open>start_engine\<close> either fails looking the engine up
  (\<open>engine_lookup\<close>), or constructs the engine, which runs this file's \<open>init_engine\<close>,
  loads the apps (\<open>load_apps\<close>) and runs this file's \<open>post_app_init\<close>, and then makes it
  the current engine.
\<close>

definition destroy :: "env \<Rightarrow> engine \<Rightarrow> host \<Rightarrow> outcome" where
  "destroy E self h =
     seq (destroy_engine E self (record_call (CallDestroy self) h))
       (\<lambda>h1. (None, h1\<lparr>current_engine := None\<rparr>))"

definition start_engine ::
  "env \<Rightarrow> string \<Rightarrow> tk \<Rightarrow> pcontext \<Rightarrow> host \<Rightarrow> (exn + engine) \<times> host" where
  "start_engine E engine_name t ctx h0 =
     (let h1 = record_call (CallStartEngine engine_name t ctx (current_engine h0)) h0 in
      case engine_lookup E engine_name t ctx of
        Some e \<Rightarrow> (Inl e, h1)
      | None \<Rightarrow>
          (let self = \<lparr>instance_name = engine_name, eng_tank = t, eng_context = ctx,
                       menu_handle = None\<rparr> in
           case init_engine E self h1 of
             (Some e, h2) \<Rightarrow> (Inl e, h2)
           | (None, h2) \<Rightarrow>
               (case load_apps E engine_name t ctx of
                  Some e \<Rightarrow> (Inl e, h2)
                | None \<Rightarrow>
                    (case post_app_init E self h2 of
                       (self', h3) \<Rightarrow> (Inr self', h3\<lparr>current_engine := Some self'\<rparr>)))))"

section \<open>The scene event callback\<close>

fun join :: "string \<Rightarrow> string list \<Rightarrow> string" where
  "join sep [] = []"
| "join sep [x] = x"
| "join sep (x # y # ys) = x @ sep @ join sep (y # ys)"

definition error_message :: "exn \<Rightarrow> string" where
  "error_message e =
     ''Message: There was a problem starting the Tank Engine.'' @ [CHR 0x0A]
     @ ''Please contact tanksupport@shotgunsoftware.com'' @ [CHR 0x0A, CHR 0x0A]
     @ ''Exception: '' @ class_str (exc_type e) @ '' - '' @ exc_value e @ [CHR 0x0A]
     @ ''Traceback (most recent call last):'' @ [CHR 0x0A]
     @ join [CHR 0x0A] (exc_traceback e)"

text \<open>Lines 75-87: start the new engine; on an engine initialisation error show the
  disabled menu and register the two callbacks again.\<close>

definition create_new_engine ::
  "env \<Rightarrow> string \<Rightarrow> pcontext \<Rightarrow> tk \<Rightarrow> pcontext \<Rightarrow> host \<Rightarrow> outcome" where
  "create_new_engine E engine_name prev_context t ctx h4 =
     (case start_engine E engine_name t ctx h4 of
        (Inl e, h5) \<Rightarrow>
          (if is_TankEngineInitError e
           then
             seq (create_tank_disabled_menu
                    (displayInfo (''Tank Engine cannot be started: '' @ exc_value e) h5))
               (\<lambda>h6. (None,
                  scriptJob SceneSaved engine_name prev_context
                    (scriptJob SceneOpened engine_name prev_context h6)))
           else (Some e, h5))
      | (Inr new_engine, h5) \<Rightarrow>
          (None, log_debug E new_engine ''Launched new engine for context!'' h5))"

text \<open>Lines 68-73: tear the active engine down. \<open>cur\<close> is the engine read at line 38.\<close>

definition teardown :: "env \<Rightarrow> pcontext \<Rightarrow> engine option \<Rightarrow> pcontext \<Rightarrow> host \<Rightarrow> outcome" where
  "teardown E prev_context cur ctx h3 =
     (case cur of
        None \<Rightarrow> (None, h3)
      | Some ce \<Rightarrow>
          destroy E ce
            (log_debug E ce (''New context: '' @ str_context E ctx)
              (log_debug E ce (''Prev context: '' @ str_context E prev_context)
                (log_debug E ce ''Ready to switch to context because of scene event !'' h3))))"

text \<open>Lines 68-87: tear the active engine down, then start the new one.\<close>

definition rebuild ::
  "env \<Rightarrow> string \<Rightarrow> pcontext \<Rightarrow> engine option \<Rightarrow> tk \<Rightarrow> pcontext \<Rightarrow> host \<Rightarrow> outcome" where
  "rebuild E engine_name prev_context cur t ctx h3 =
     seq (teardown E prev_context cur ctx h3)
       (create_new_engine E engine_name prev_context t ctx)"

text \<open>
  The body of the outer \<^verbatim>\<open>try\<close> (lines 38-87). The result is the exception that
  leaves the body, if any, with the state reached when it was raised.
\<close>

definition scene_event_body :: "env \<Rightarrow> string \<Rightarrow> pcontext \<Rightarrow> host \<Rightarrow> outcome" where
  "scene_event_body E engine_name prev_context h0 =
     (let cur = current_engine h0 in
      seq (if menu_exists ''TankMenuDisabled'' h0 then deleteUI ''TankMenuDisabled'' h0
           else (None, h0))
        (\<lambda>h1.
           if scene_name h1 = []
           then (None, h1)
           else
             let new_path = abspath E (scene_name h1);
                 h2 = record_call (CallTankFromPath new_path) h1
             in case tank_from_path E new_path of
                  Inl e \<Rightarrow>
                    (if is_TankError e
                     then create_tank_disabled_menu
                            (displayInfo (''Tank Engine cannot be started: '' @ exc_value e) h2)
                     else (Some e, h2))
                | Inr t \<Rightarrow>
                    (let h3 = record_call (CallContextFromPath new_path prev_context) h2
                     in case context_from_path E t new_path prev_context of
                          Inl e \<Rightarrow> (Some e, h3)
                        | Inr ctx \<Rightarrow>
                            (if cur \<noteq> None \<and> ctx = prev_context
                             then (None, h3)
                             else rebuild E engine_name prev_context cur t ctx h3))))"

text \<open>
  Lines 89-97: the clause catches instances of \<^verbatim>\<open>Exception\<close> and reports them on
  the error channel; any other exception leaves the callback.
\<close>

definition handled :: "exn \<Rightarrow> host \<Rightarrow> outcome" where
  "handled e h1 =
     (if is_Exception e then (None, displayError (error_message e) h1) else (Some e, h1))"

definition on_scene_event_cb :: "env \<Rightarrow> string \<Rightarrow> pcontext \<Rightarrow> host \<Rightarrow> outcome" where
  "on_scene_event_cb E engine_name prev_context h =
     (case scene_event_body E engine_name prev_context h of
        (None, h1) \<Rightarrow> (None, h1)
      | (Some e, h1) \<Rightarrow> handled e h1)"

text \<open>
  The host fires an event: every job registered for it runs once, in registration order,
  and is removed (\<^verbatim>\<open>runOnce=True\<close>) before its callback runs.
\<close>

definition fire_event :: "env \<Rightarrow> event \<Rightarrow> host \<Rightarrow> outcome" where
  "fire_event E ev h =
     foldl (\<lambda>r (e, en, pc). seq r (on_scene_event_cb E en pc))
       (None, h\<lparr>script_jobs := filter (\<lambda>(e, en, pc). e \<noteq> ev) (script_jobs h)\<rparr>)
       (filter (\<lambda>(e, en, pc). e = ev) (script_jobs h))"

definition listening :: "event \<Rightarrow> host \<Rightarrow> bool" where
  "listening ev h = (ev \<in> set (map fst (script_jobs h)))"

definition live_sessions :: "host \<Rightarrow> nat" where
  "live_sessions h = (case current_engine h of None \<Rightarrow> 0 | Some e \<Rightarrow> 1)"

definition disabled_markers :: "host \<Rightarrow> nat" where
  "disabled_markers h = count_list (menus h) ''TankMenuDisabled''"

section \<open>The engine queue\<close>

text \<open>
  Python values that occur as queue item arguments. A dictionary is an object on the
  heap, referred to by its address, so that two references to one dictionary see each
  other's updates. \<open>PReportProgress\<close> is the engine's own \<^verbatim>\<open>self.report_progress\<close>.
\<close>

datatype pyval = PNone | PInt int | PStr string | PRef nat | PReportProgress

type_synonym kwargs = "string \<rightharpoonup> pyval"

text \<open>
  A work unit is known by what it does when called with keyword arguments: it calls the
  \<open>progress_callback\<close> it was given (\<open>Report\<close>), it adds items to the engine's queue
  (\<open>Enqueue\<close>), and at the end it returns or raises.
\<close>

datatype action = Report int | Enqueue string callable pyval
  and callable = Callable (run: "kwargs \<Rightarrow> action list \<times> exn option")

record job =
  job_name :: string
  job_method :: callable
  job_args :: pyval

text \<open>What the engine does to the host and to its log, in order of occurrence.\<close>

datatype qevent =
  Warned string
  | BeginProgress string
  | Called string kwargs
  | Step int
  | LoggedException string exn
  | EndProgress

text \<open>
  The attributes \<^verbatim>\<open>_current_progress\<close> and \<^verbatim>\<open>_maya_progress_bar\<close> exist only once
  \<open>execute_queue\<close> has set them; \<open>None\<close> stands for a missing attribute.
\<close>

record qengine =
  queue :: "job list"
  current_progress :: "int option"
  maya_progress_bar :: "string option"
  heap :: "nat \<rightharpoonup> kwargs"
  trace :: "qevent list"

text \<open>The one line \<^verbatim>\<open>log_warning\<close> displays for the deprecation message, which is
  shorter than the console width.\<close>

definition deprecation :: string where
  "deprecation = ''Tank: The Engine Queue is now deprecated! Please contact support@shotgunsoftware.com''"

definition add_to_queue :: "string \<Rightarrow> callable \<Rightarrow> pyval \<Rightarrow> qengine \<Rightarrow> qengine" where
  "add_to_queue n m a s =
     s\<lparr>queue := queue s @ [\<lparr>job_name = n, job_method = m, job_args = a\<rparr>],
       trace := trace s @ [Warned deprecation]\<rparr>"

definition report_progress :: "int \<Rightarrow> qengine \<Rightarrow> exn option \<times> qengine" where
  "report_progress percent s =
     (case current_progress s of
        None \<Rightarrow> (Some (Exn AttributeError ''_current_progress'' []), s)
      | Some cp \<Rightarrow>
          (let delta = percent - cp in
           case maya_progress_bar s of
             None \<Rightarrow> (Some (Exn AttributeError ''_maya_progress_bar'' []), s)
           | Some bar \<Rightarrow>
               (None, s\<lparr>trace := trace s @ [Step delta], current_progress := Some percent\<rparr>)))"

text \<open>Calling whatever the keyword arguments hold under \<open>progress_callback\<close>.\<close>

definition call_progress_callback :: "kwargs \<Rightarrow> int \<Rightarrow> qengine \<Rightarrow> exn option \<times> qengine" where
  "call_progress_callback kw percent s =
     (case kw ''progress_callback'' of
        Some PReportProgress \<Rightarrow> report_progress percent s
      | _ \<Rightarrow> (Some (Exn TypeError ''progress_callback is not callable'' []), s))"

fun run_actions :: "kwargs \<Rightarrow> action list \<Rightarrow> qengine \<Rightarrow> exn option \<times> qengine" where
  "run_actions kw [] s = (None, s)"
| "run_actions kw (Report p # acts) s =
     (case call_progress_callback kw p s of
        (Some e, s') \<Rightarrow> (Some e, s')
      | (None, s') \<Rightarrow> run_actions kw acts s')"
| "run_actions kw (Enqueue n m a # acts) s = run_actions kw acts (add_to_queue n m a s)"

text \<open>Line 356: the work unit of the item is called with the keyword arguments.\<close>

definition invoke :: "job \<Rightarrow> kwargs \<Rightarrow> qengine \<Rightarrow> exn option \<times> qengine" where
  "invoke item kw s =
     (case run (job_method item) kw of
        (acts, result) \<Rightarrow>
          (case run_actions kw acts (s\<lparr>trace := trace s @ [Called (job_name item) kw]\<rparr>) of
             (Some e, s') \<Rightarrow> (Some e, s')
           | (None, s') \<Rightarrow> (result, s')))"

text \<open>Lines 351-356, the \<^verbatim>\<open>try\<close> block: item assignment on anything but a dictionary
  raises \<open>TypeError\<close>.\<close>

definition process_callback :: "job \<Rightarrow> qengine \<Rightarrow> exn option \<times> qengine" where
  "process_callback item s =
     (case job_args item of
        PRef a \<Rightarrow>
          (case heap s a of
             Some d \<Rightarrow>
               invoke item (d(''progress_callback'' \<mapsto> PReportProgress))
                 (s\<lparr>heap := (heap s)(a \<mapsto> d(''progress_callback'' \<mapsto> PReportProgress))\<rparr>)
           | None \<Rightarrow> (Some (Exn TypeError ''object does not support item assignment'' []), s))
      | v \<Rightarrow> (Some (Exn TypeError ''object does not support item assignment'' []), s))"

text \<open>Lines 342-362, the body of the loop once the head item has been taken off.\<close>

definition process_item :: "job \<Rightarrow> qengine \<Rightarrow> qengine" where
  "process_item item s0 =
     (let s1 = s0\<lparr>trace := trace s0 @ [BeginProgress (job_name item)], current_progress := Some 0\<rparr>;
          s3 = (case process_callback item s1 of
                  (None, s2) \<Rightarrow> s2
                | (Some e, s2) \<Rightarrow> s2\<lparr>trace := trace s2 @ [LoggedException (job_name item) e]\<rparr>)
      in s3\<lparr>trace := trace s3 @ [EndProgress]\<rparr>)"

text \<open>The loop runs as long as the queue is not empty; work units may keep it so for
  ever, and then it has no result.\<close>

partial_function (option) execute_loop :: "qengine \<Rightarrow> qengine option" where
  "execute_loop s =
     (case queue s of
        [] \<Rightarrow> Some s
      | current_queue_item # rest \<Rightarrow> execute_loop (process_item current_queue_item (s\<lparr>queue := rest\<rparr>)))"

declare execute_loop.simps [code]

definition execute_queue :: "string \<Rightarrow> qengine \<Rightarrow> qengine option" where
  "execute_queue main_bar s =
     execute_loop (s\<lparr>trace := trace s @ [Warned deprecation], maya_progress_bar := Some main_bar\<rparr>)"

section \<open>Concrete scenes and environments\<close>

definition ctxA :: pcontext where
  "ctxA = \<lparr>project = Some (''Project'', 1), entity = Some (''Shot'', 10), step = None, task = None\<rparr>"

definition ctxB :: pcontext where
  "ctxB = \<lparr>project = Some (''Project'', 1), entity = Some (''Shot'', 20), step = None, task = None\<rparr>"

text \<open>An exception as \<^verbatim>\<open>traceback.format_tb\<close> shows it: one entry of two lines.\<close>

definition status_error :: exn where
  "status_error = Exn RuntimeError ''bad status''
     [''  File '' @ [CHR 0x22] @ ''/tank/context.py'' @ [CHR 0x22] @ '', line 12, in from_path''
      @ [CHR 0x0A] @ ''    raise RuntimeError(msg)'' @ [CHR 0x0A]]"

text \<open>
  A pipeline rooted at \<open>/proj\<close>: \<open>a.ma\<close> belongs to \<open>ctxA\<close>, \<open>b.ma\<close> to \<open>ctxB\<close>,
  computing the context of \<open>c.ma\<close> fails with a \<open>RuntimeError\<close>, that of \<open>d.ma\<close> with a
  \<open>TankError\<close>, and that of \<open>e.ma\<close> is interrupted from the keyboard. Looking up the
  pipeline of \<open>/broken/f.ma\<close> fails with a \<open>RuntimeError\<close>, and any other path belongs
  to no pipeline.
\<close>

definition env0 :: env where
  "env0 = \<lparr>
     tank_from_path = (\<lambda>p. if p \<in> set [''/proj/a.ma'', ''/proj/b.ma'', ''/proj/c.ma'',
                                        ''/proj/d.ma'', ''/proj/e.ma'']
                            then Inr (Tk ''/proj'')
                            else if p = ''/broken/f.ma''
                            then Inl (Exn RuntimeError ''cannot read the pipeline configuration'' [])
                            else Inl (Exn TankError (''No pipeline for '' @ p) [])),
     context_from_path = (\<lambda>t p pc. if p = ''/proj/a.ma'' then Inr ctxA
                                     else if p = ''/proj/b.ma'' then Inr ctxB
                                     else if p = ''/proj/c.ma'' then Inl status_error
                                     else if p = ''/proj/e.ma'' then Inl (Exn KeyboardInterrupt [] [])
                                     else Inl (Exn TankError (''No context for '' @ p) [])),
     engine_lookup = (\<lambda>en t c. None),
     load_apps = (\<lambda>en t c. None),
     paths_from_entity = (\<lambda>t ty i. [''/proj/shots'']),
     template_project = None,
     project_path = (\<lambda>t s c. Inr ''/proj/maya''),
     about_os = ''linux64'',
     about_version = ''2013 x64'',
     about_batch = False,
     debug_logging = False,
     abspath = (\<lambda>p. p),
     str_engine = instance_name,
     str_context = (\<lambda>c. ''ctx''),
     pyside_present = True,
     sys_platform = ''linux2'',
     pyside_import_error = None,
     wrap = (\<lambda>s. [s])\<rparr>"

definition env_init_fails :: env where
  "env_init_fails =
     env0\<lparr>engine_lookup := (\<lambda>en t c. Some (Exn TankEngineInitError ''no such engine'' []))\<rparr>"

text \<open>The same host running an unsupported version, and running without user interface.\<close>

definition env_old_maya :: env where
  "env_old_maya = env0\<lparr>about_version := ''2011 x64''\<rparr>"

definition env_batch :: env where
  "env_batch = env0\<lparr>about_batch := True\<rparr>"

definition engA :: engine where
  "engA = \<lparr>instance_name = ''tk-maya'', eng_tank = Tk ''/proj'', eng_context = ctxA,
           menu_handle = Some ''TankMenu''\<rparr>"

definition h_active :: "string \<Rightarrow> host" where
  "h_active scene = \<lparr>
     current_engine = Some engA,
     menus = [''TankMenu''],
     menu_items = [],
     scene_name = scene,
     script_jobs = [(SceneOpened, ''tk-maya'', ctxA), (SceneSaved, ''tk-maya'', ctxA)],
     maya_project = None,
     info = [], warnings = [], errors = [], calls = []\<rparr>"

definition h_disabled :: "string \<Rightarrow> host" where
  "h_disabled scene = \<lparr>
     current_engine = None,
     menus = [''TankMenuDisabled''],
     menu_items = [(''TankMenuDisabled'', ''Tank is disabled.'')],
     scene_name = scene,
     script_jobs = [(SceneOpened, ''tk-maya'', ctxA), (SceneSaved, ''tk-maya'', ctxA)],
     maya_project = None,
     info = [], warnings = [], errors = [], calls = []\<rparr>"

text \<open>The state with the menu \<open>n\<close> deleted when it exists, and untouched otherwise.\<close>

definition without_menu :: "string \<Rightarrow> host \<Rightarrow> host" where
  "without_menu n h =
     (if menu_exists n h
      then h\<lparr>menus := removeAll n (menus h),
             menu_items := filter (\<lambda>(p, l). p \<noteq> n) (menu_items h)\<rparr>
      else h)"

text \<open>An engine whose menu has been deleted while the disabled menu is shown.\<close>

definition h_stale :: "string \<Rightarrow> host" where
  "h_stale scene = (h_active scene)\<lparr>
     menus := [''TankMenuDisabled''],
     menu_items := [(''TankMenuDisabled'', ''Tank is disabled.'')]\<rparr>"

text \<open>The state in which line 61 has returned: the disabled menu is reset and the two
  resolution calls are made.\<close>

definition resolved :: "env \<Rightarrow> pcontext \<Rightarrow> host \<Rightarrow> host" where
  "resolved E prev_context h =
     record_call (CallContextFromPath (abspath E (scene_name h)) prev_context)
       (record_call (CallTankFromPath (abspath E (scene_name h)))
         (without_menu ''TankMenuDisabled'' h))"

text \<open>The engine holds its user interface: it is current, and the menu it created exists.\<close>

definition holds_affordance :: "host \<Rightarrow> bool" where
  "holds_affordance h =
     (case current_engine h of
        None \<Rightarrow> False
      | Some e \<Rightarrow> (case menu_handle e of None \<Rightarrow> False | Some m \<Rightarrow> menu_exists m h))"

text \<open>If an engine is active, the menu it created exists and is not the disabled menu.\<close>

definition engine_menu_exists :: "host \<Rightarrow> bool" where
  "engine_menu_exists h =
     (case current_engine h of
        None \<Rightarrow> True
      | Some e \<Rightarrow>
          (case menu_handle e of
             None \<Rightarrow> False
           | Some m \<Rightarrow> m \<noteq> ''TankMenuDisabled'' \<and> menu_exists m h))"

text \<open>Either an engine is active and holds its menu and there is no disabled menu, or
  no engine is active and there is exactly one disabled menu.\<close>

definition one_affordance :: "host \<Rightarrow> bool" where
  "one_affordance h =
     (live_sessions h + disabled_markers h = 1
      \<and> (holds_affordance h \<or> current_engine h = None))"

section \<open>Reading the trace of a drained queue\<close>

text \<open>The events that delimit the processing of one item.\<close>

datatype mark = MBegin string | MCall string | MLogged string exn | MEnd

fun marks :: "qevent list \<Rightarrow> mark list" where
  "marks [] = []"
| "marks (BeginProgress n # es) = MBegin n # marks es"
| "marks (Called n kw # es) = MCall n # marks es"
| "marks (LoggedException n e # es) = MLogged n e # marks es"
| "marks (EndProgress # es) = MEnd # marks es"
| "marks (Warned w # es) = marks es"
| "marks (Step d # es) = marks es"

text \<open>
  What processing one item is expected to show, given the heap the queue started with:
  the progress bar begins, the work unit is called, its exception (if it raises one) is
  logged, and the progress bar ends. Arguments that are no dictionary cannot take the
  \<open>progress_callback\<close> entry; the work unit is then not called and the \<open>TypeError\<close>
  is logged.
\<close>

definition expected_marks :: "(nat \<rightharpoonup> kwargs) \<Rightarrow> job \<Rightarrow> mark list" where
  "expected_marks hp item =
     [MBegin (job_name item)]
     @ (case job_args item of
          PRef a \<Rightarrow>
            (case hp a of
               Some d \<Rightarrow>
                 MCall (job_name item)
                 # (case snd (run (job_method item) (d(''progress_callback'' \<mapsto> PReportProgress))) of
                      Some e \<Rightarrow> [MLogged (job_name item) e]
                    | None \<Rightarrow> [])
             | None \<Rightarrow>
                 [MLogged (job_name item) (Exn TypeError ''object does not support item assignment'' [])])
        | v \<Rightarrow> [MLogged (job_name item) (Exn TypeError ''object does not support item assignment'' [])])
     @ [MEnd]"

fun is_Report :: "action \<Rightarrow> bool" where
  "is_Report (Report p) = True"
| "is_Report (Enqueue n m a) = False"

text \<open>A work unit that never adds to the queue while it runs.\<close>

definition quiet :: "job \<Rightarrow> bool" where
  "quiet item = (\<forall>kw. list_all is_Report (fst (run (job_method item) kw)))"

text \<open>The steps that reports \<open>ps\<close> give when the last reported value is \<open>cp\<close>.\<close>

fun deltas :: "int \<Rightarrow> int list \<Rightarrow> int list" where
  "deltas cp [] = []"
| "deltas cp (p # ps) = (p - cp) # deltas p ps"

text \<open>Every dictionary of the heap with the \<open>progress_callback\<close> entry set.\<close>

definition injected :: "(nat \<rightharpoonup> kwargs) \<Rightarrow> (nat \<rightharpoonup> kwargs)" where
  "injected hp = (\<lambda>a. map_option (\<lambda>d. d(''progress_callback'' \<mapsto> PReportProgress)) (hp a))"

text \<open>Inside the loop the callback is the engine's own and its attributes are set.\<close>

definition ready :: "kwargs \<Rightarrow> qengine \<Rightarrow> bool" where
  "ready kw s = (kw ''progress_callback'' = Some PReportProgress
                 \<and> current_progress s \<noteq> None \<and> maya_progress_bar s \<noteq> None)"


text \<open>An event in which a work unit, if one is called, receives the engine's own
  \<open>report_progress\<close> as \<open>progress_callback\<close>.\<close>

fun uses_engine_callback :: "qevent \<Rightarrow> bool" where
  "uses_engine_callback (Called n kw) = (kw ''progress_callback'' = Some PReportProgress)"
| "uses_engine_callback (Warned w) = True"
| "uses_engine_callback (BeginProgress n) = True"
| "uses_engine_callback (Step d) = True"
| "uses_engine_callback (LoggedException n e) = True"
| "uses_engine_callback EndProgress = True"

text \<open>The heap \<open>hp'\<close> is \<open>hp\<close> with the \<open>progress_callback\<close> entry set in some dictionaries.\<close>

definition stamps :: "(nat \<rightharpoonup> kwargs) \<Rightarrow> (nat \<rightharpoonup> kwargs) \<Rightarrow> bool" where
  "stamps hp hp' =
     (\<forall>a. hp' a = hp a
          \<or> (\<exists>d. hp a = Some d \<and> hp' a = Some (d(''progress_callback'' \<mapsto> PReportProgress))))"

text \<open>Concrete work units and a queue of three of them; the second one fails.\<close>

definition export_job :: callable where
  "export_job = Callable (\<lambda>kw. ([Report 0, Report 40, Report 100], None))"

definition failing_job :: callable where
  "failing_job = Callable (\<lambda>kw. ([Report 10], Some (Exn RuntimeError ''disk full'' [])))"

definition spawning_job :: callable where
  "spawning_job = Callable (\<lambda>kw. ([Enqueue ''C'' export_job (PRef 0)], None))"

definition q0 :: qengine where
  "q0 = \<lparr>queue = [], current_progress = None, maya_progress_bar = None,
         heap = [0 \<mapsto> [''path'' \<mapsto> PStr ''/proj/out''],
                 1 \<mapsto> [''progress_callback'' \<mapsto> PStr ''mine'']],
         trace = []\<rparr>"

definition q3 :: qengine where
  "q3 = add_to_queue ''C'' export_job (PRef 0)
         (add_to_queue ''B'' failing_job (PRef 1)
           (add_to_queue ''A'' export_job (PRef 0) q0))"

section \<open>Auxiliary facts about the scene event callback\<close>

lemma seq_None [simp]: "seq (None, h) f = f h"
  by (simp add: seq_def)

lemma seq_Some [simp]: "seq (Some e, h) f = (Some e, h)"
  by (simp add: seq_def)

lemma guarded_deleteUI:
  "(if menu_exists n h then deleteUI n h else (None, h)) = (None, without_menu n h)"
  by (simp add: deleteUI_def without_menu_def)

lemma create_tank_disabled_menu_eq:
  "create_tank_disabled_menu h =
     (None, menuItem ''Tank is disabled.'' ''TankMenuDisabled''
              (menu_create ''TankMenuDisabled'' (without_menu ''TankMenu'' h)))"
  by (simp add: create_tank_disabled_menu_def guarded_deleteUI)

lemma body_unsaved:
  "scene_name h = [] \<Longrightarrow>
   scene_event_body E en pc h = (None, without_menu ''TankMenuDisabled'' h)"
  by (simp add: scene_event_body_def guarded_deleteUI without_menu_def)


lemma foldl_displayInfo:
  "foldl (\<lambda>h l. displayInfo l h) h ls = h\<lparr>info := info h @ ls\<rparr>"
  by (induction ls arbitrary: h) (simp_all add: displayInfo_def)

lemma log_debug_eq:
  "log_debug E s m h =
     h\<lparr>info := info h @ (if debug_logging E then wrap E (str_engine E s @ '' DEBUG: '' @ m) else [])\<rparr>"
  by (simp add: log_debug_def foldl_displayInfo)

lemma log_debug_fields [simp]:
  "current_engine (log_debug E s m h) = current_engine h"
  "menus (log_debug E s m h) = menus h"
  "menu_items (log_debug E s m h) = menu_items h"
  "calls (log_debug E s m h) = calls h"
  "script_jobs (log_debug E s m h) = script_jobs h"
  "errors (log_debug E s m h) = errors h"
  "scene_name (log_debug E s m h) = scene_name h"
  by (simp_all add: log_debug_eq)

lemma log_info_fields [simp]:
  "current_engine (log_info E m h) = current_engine h"
  "menus (log_info E m h) = menus h"
  "calls (log_info E m h) = calls h"
  "script_jobs (log_info E m h) = script_jobs h"
  by (simp_all add: log_info_def foldl_displayInfo)

lemma log_error_fields [simp]:
  "current_engine (log_error m h) = current_engine h"
  "menus (log_error m h) = menus h"
  "calls (log_error m h) = calls h"
  "script_jobs (log_error m h) = script_jobs h"
  by (simp_all add: log_error_def displayError_def)

lemma init_pyside_fields [simp]:
  "current_engine (init_pyside E s h) = current_engine h"
  "menus (init_pyside E s h) = menus h"
  "calls (init_pyside E s h) = calls h"
  "script_jobs (init_pyside E s h) = script_jobs h"
  by (simp_all add: init_pyside_def Let_def split: option.split)

lemma set_project_fields:
  assumes "set_project E s h = (r, h')"
  shows "current_engine h' = current_engine h \<and> menus h' = menus h \<and> calls h' = calls h
       \<and> script_jobs h' = script_jobs h"
  using assms by (auto simp: set_project_def split: option.splits sum.splits)

lemma init_engine_frame:
  assumes "init_engine E s h = (r, h')"
  shows "current_engine h' = current_engine h \<and> menus h' = menus h \<and> calls h' = calls h"
proof -
  obtain r2 h2 where sp: "set_project E s
      (log_debug E s (''Running Maya version '' @ about_version E)
        (log_debug E s (str_engine E s @ '': Initializing...'') h)) = (r2, h2)"
    by (cases "set_project E s
      (log_debug E s (''Running Maya version '' @ about_version E)
        (log_debug E s (str_engine E s @ '': Initializing...'') h))") blast
  from set_project_fields[OF sp] assms sp show ?thesis
    by (cases r2) (auto simp: init_engine_def Let_def scriptJob_def split: if_splits option.splits prod.splits)
qed

lemma start_engine_frame:
  assumes "start_engine E en t ctx h = (r, h')"
  shows "calls h' = calls h @ [CallStartEngine en t ctx (current_engine h)]
       \<and> (case r of
            Inl e \<Rightarrow> current_engine h' = current_engine h \<and> menus h' = menus h
          | Inr ne \<Rightarrow> current_engine h' = Some ne
                      \<and> menus h' = (if has_ui E then List.insert ''TankMenu'' (menus h) else menus h))"
proof -
  let ?h1 = "record_call (CallStartEngine en t ctx (current_engine h)) h"
  let ?self = "\<lparr>instance_name = en, eng_tank = t, eng_context = ctx, menu_handle = None\<rparr>"
  obtain r2 h2 where ie: "init_engine E ?self ?h1 = (r2, h2)"
    by (cases "init_engine E ?self ?h1") blast
  from init_engine_frame[OF ie] assms ie show ?thesis
    by (auto simp: start_engine_def Let_def record_call_def post_app_init_def menu_create_def
             split: option.splits if_splits)
qed

lemma destroy_frame:
  assumes "destroy E ce h = (r, h')"
  shows "calls h' = calls h @ [CallDestroy ce]
       \<and> (case r of
            None \<Rightarrow> current_engine h' = None
                    \<and> (\<exists>m. menu_handle ce = Some m \<and> menus h' = removeAll m (menus h))
          | Some e \<Rightarrow> current_engine h' = current_engine h \<and> menus h' = menus h)"
  using assms
  by (auto simp: destroy_def destroy_engine_def deleteUI_def Let_def record_call_def
           split: option.splits if_splits)

lemma create_new_engine_frame:
  assumes "create_new_engine E en pc t ctx h4 = (r, h')"
  shows "calls h' = calls h4 @ [CallStartEngine en t ctx (current_engine h4)]"
    and "r = None \<Longrightarrow> current_engine h4 = None \<Longrightarrow> ''TankMenuDisabled'' \<notin> set (menus h4)
         \<Longrightarrow> live_sessions h' + disabled_markers h' = 1"
proof -
  obtain rs hs where st: "start_engine E en t ctx h4 = (rs, hs)"
    by (cases "start_engine E en t ctx h4") blast
  note fr = start_engine_frame[OF st]
  show "calls h' = calls h4 @ [CallStartEngine en t ctx (current_engine h4)]"
    using assms st fr
    by (cases rs)
       (auto simp: create_new_engine_def create_tank_disabled_menu_eq displayInfo_def
                   scriptJob_def menuItem_def menu_create_def without_menu_def
             split: if_splits)
  show "live_sessions h' + disabled_markers h' = 1"
    if "r = None" "current_engine h4 = None" "''TankMenuDisabled'' \<notin> set (menus h4)"
    using assms st fr that
    by (cases rs)
       (auto simp: create_new_engine_def create_tank_disabled_menu_eq displayInfo_def
                   scriptJob_def menuItem_def
                   menu_create_def without_menu_def live_sessions_def disabled_markers_def
                   menu_exists_def count_list_0_iff
             split: if_splits)
qed

lemma rebuild_calls:
  assumes "rebuild E en pc (current_engine h) t ctx h = (r, h')"
  shows "\<exists>rest. calls h' = calls h @ (case current_engine h of None \<Rightarrow> [] | Some ce \<Rightarrow> [CallDestroy ce]) @ rest
            \<and> (rest = [] \<or> rest = [CallStartEngine en t ctx None])"
proof (cases "current_engine h")
  case None
  with assms have "create_new_engine E en pc t ctx h = (r, h')"
    by (simp add: rebuild_def teardown_def)
  from create_new_engine_frame(1)[OF this] None show ?thesis by simp
next
  case (Some ce)
  let ?hl = "log_debug E ce (''New context: '' @ str_context E ctx)
              (log_debug E ce (''Prev context: '' @ str_context E pc)
                (log_debug E ce ''Ready to switch to context because of scene event !'' h))"
  obtain rd hd where d: "destroy E ce ?hl = (rd, hd)"
    by (cases "destroy E ce ?hl") blast
  note fr = destroy_frame[OF d]
  show ?thesis
  proof (cases rd)
    case None
    with assms Some d have "create_new_engine E en pc t ctx hd = (r, h')"
      by (simp add: rebuild_def teardown_def)
    from create_new_engine_frame(1)[OF this] fr None Some show ?thesis by simp
  next
    case (Some e)
    with assms \<open>current_engine h = Some ce\<close> d fr show ?thesis
      by (simp add: rebuild_def teardown_def)
  qed
qed

lemma without_menu_fields [simp]:
  "current_engine (without_menu n h) = current_engine h"
  "calls (without_menu n h) = calls h"
  "script_jobs (without_menu n h) = script_jobs h"
  "scene_name (without_menu n h) = scene_name h"
  "errors (without_menu n h) = errors h"
  "info (without_menu n h) = info h"
  "menus (without_menu n h) = removeAll n (menus h)"
  by (simp_all add: without_menu_def menu_exists_def)

lemma body_located:
  assumes "scene_name h \<noteq> []"
  shows "scene_event_body E en pc h =
     (let h1 = without_menu ''TankMenuDisabled'' h;
          p = abspath E (scene_name h);
          h2 = record_call (CallTankFromPath p) h1
      in case tank_from_path E p of
           Inl e \<Rightarrow>
             (if is_TankError e
              then create_tank_disabled_menu
                     (displayInfo (''Tank Engine cannot be started: '' @ exc_value e) h2)
              else (Some e, h2))
         | Inr t \<Rightarrow>
             (let h3 = record_call (CallContextFromPath p pc) h2
              in case context_from_path E t p pc of
                   Inl e \<Rightarrow> (Some e, h3)
                 | Inr ctx \<Rightarrow>
                     (if current_engine h \<noteq> None \<and> ctx = pc
                      then (None, h3)
                      else rebuild E en pc (current_engine h) t ctx h3)))"
  using assms by (simp add: scene_event_body_def guarded_deleteUI Let_def)

lemma on_scene_event_cb_calls:
  "calls (snd (on_scene_event_cb E en pc h)) = calls (snd (scene_event_body E en pc h))"
  by (cases "scene_event_body E en pc h")
     (auto simp: on_scene_event_cb_def handled_def displayError_def split: option.splits)


lemma displayError_fields [simp]:
  "current_engine (displayError m h) = current_engine h"
  "menus (displayError m h) = menus h"
  "calls (displayError m h) = calls h"
  "script_jobs (displayError m h) = script_jobs h"
  by (simp_all add: displayError_def)

lemma cb_fields:
  "current_engine (snd (on_scene_event_cb E en pc h)) = current_engine (snd (scene_event_body E en pc h))"
  "menus (snd (on_scene_event_cb E en pc h)) = menus (snd (scene_event_body E en pc h))"
  by (cases "scene_event_body E en pc h", auto simp: on_scene_event_cb_def handled_def split: option.splits)
     (cases "scene_event_body E en pc h", auto simp: on_scene_event_cb_def handled_def split: option.splits)

lemma cb_one_affordance:
  "live_sessions (snd (on_scene_event_cb E en pc h)) = live_sessions (snd (scene_event_body E en pc h))"
  "disabled_markers (snd (on_scene_event_cb E en pc h)) = disabled_markers (snd (scene_event_body E en pc h))"
  "holds_affordance (snd (on_scene_event_cb E en pc h)) = holds_affordance (snd (scene_event_body E en pc h))"
  "one_affordance (snd (on_scene_event_cb E en pc h)) = one_affordance (snd (scene_event_body E en pc h))"
  by (auto simp: one_affordance_def live_sessions_def disabled_markers_def holds_affordance_def
        menu_exists_def cb_fields split: option.splits)

lemma resolved_fields [simp]:
  "current_engine (resolved E pc h) = current_engine h"
  "menus (resolved E pc h) = removeAll ''TankMenuDisabled'' (menus h)"
  "calls (resolved E pc h) = calls h @ [CallTankFromPath (abspath E (scene_name h)),
                                        CallContextFromPath (abspath E (scene_name h)) pc]"
  by (simp_all add: resolved_def record_call_def)

lemma body_resolved:
  assumes "scene_name h \<noteq> []"
    and "tank_from_path E (abspath E (scene_name h)) = Inr t"
  shows "scene_event_body E en pc h =
     (case context_from_path E t (abspath E (scene_name h)) pc of
        Inl e \<Rightarrow> (Some e, resolved E pc h)
      | Inr ctx \<Rightarrow>
          (if current_engine h \<noteq> None \<and> ctx = pc
           then (None, resolved E pc h)
           else seq (teardown E pc (current_engine h) ctx (resolved E pc h))
                  (create_new_engine E en pc t ctx)))"
  using assms by (simp add: body_located Let_def resolved_def rebuild_def split: sum.splits)

lemma body_unresolved:
  assumes "scene_name h \<noteq> []"
    and "tank_from_path E (abspath E (scene_name h)) = Inl e"
  shows "scene_event_body E en pc h =
     (if is_TankError e
      then (None, menuItem ''Tank is disabled.'' ''TankMenuDisabled''
              (menu_create ''TankMenuDisabled'' (without_menu ''TankMenu''
                (displayInfo (''Tank Engine cannot be started: '' @ exc_value e)
                  (record_call (CallTankFromPath (abspath E (scene_name h)))
                    (without_menu ''TankMenuDisabled'' h))))))
      else (Some e, record_call (CallTankFromPath (abspath E (scene_name h)))
                      (without_menu ''TankMenuDisabled'' h)))"
  using assms by (simp add: body_located Let_def create_tank_disabled_menu_eq)

lemma teardown_frame:
  assumes "teardown E pc (current_engine h) ctx h = (r, h4)"
  shows "(r = None \<longrightarrow> current_engine h4 = None
            \<and> (\<exists>ms. menus h4 = removeAll ms (menus h) \<or> menus h4 = menus h))
       \<and> (r \<noteq> None \<longrightarrow> current_engine h4 = current_engine h \<and> current_engine h \<noteq> None
              \<and> menus h4 = menus h \<and> \<not> holds_affordance h)"
proof (cases "current_engine h")
  case None
  with assms show ?thesis by (auto simp: teardown_def)
next
  case (Some ce)
  let ?hl = "log_debug E ce (''New context: '' @ str_context E ctx)
              (log_debug E ce (''Prev context: '' @ str_context E pc)
                (log_debug E ce ''Ready to switch to context because of scene event !'' h))"
  from assms Some have d: "destroy E ce ?hl = (r, h4)" by (simp add: teardown_def)
  show ?thesis
  proof (cases r)
    case None
    with destroy_frame[OF d] show ?thesis by auto
  next
    case (Some e)
    with d \<open>current_engine h = Some ce\<close> show ?thesis
      by (auto simp: destroy_def destroy_engine_def deleteUI_def Let_def record_call_def
            holds_affordance_def menu_exists_def seq_def split: option.splits if_splits)
  qed
qed

lemma start_engine_ui:
  assumes "start_engine E en t ctx h = (Inr ne, h')" and "has_ui E"
  shows "menu_handle ne = Some ''TankMenu''"
proof -
  let ?h1 = "record_call (CallStartEngine en t ctx (current_engine h)) h"
  let ?self = "\<lparr>instance_name = en, eng_tank = t, eng_context = ctx, menu_handle = None\<rparr>"
  obtain r2 h2 where ie: "init_engine E ?self ?h1 = (r2, h2)"
    by (cases "init_engine E ?self ?h1") blast
  from assms ie show ?thesis
    by (auto simp: start_engine_def Let_def post_app_init_def split: option.splits if_splits)
qed

lemma create_new_engine_affordance:
  assumes c: "create_new_engine E en pc t ctx h4 = (r, h')"
    and ce: "current_engine h4 = None"
    and m: "''TankMenuDisabled'' \<notin> set (menus h4)"
    and g: "\<forall>e h5. start_engine E en t ctx h4 = (Inl e, h5) \<longrightarrow> is_TankEngineInitError e"
  shows "live_sessions h' + disabled_markers h' = 1
       \<and> ((\<forall>ne h5. start_engine E en t ctx h4 = (Inr ne, h5) \<longrightarrow> has_ui E) \<longrightarrow> one_affordance h')"
proof -
  obtain rs hs where st: "start_engine E en t ctx h4 = (rs, hs)"
    by (cases "start_engine E en t ctx h4") blast
  note fr = start_engine_frame[OF st]
  show ?thesis
  proof (cases rs)
    case (Inl e)
    with g st have "is_TankEngineInitError e" by simp
    with c st Inl fr ce m show ?thesis
      by (auto simp: create_new_engine_def create_tank_disabled_menu_eq displayInfo_def
                     scriptJob_def menuItem_def menu_create_def without_menu_def
                     live_sessions_def disabled_markers_def one_affordance_def
                     menu_exists_def count_list_0_iff)
  next
    case (Inr ne)
    have ui: "has_ui E \<Longrightarrow> menu_handle ne = Some ''TankMenu''"
      using start_engine_ui[of E en t ctx h4 ne hs] st Inr by simp
    from c st Inr fr m have h': "current_engine h' = Some ne"
      "menus h' = (if has_ui E then List.insert ''TankMenu'' (menus h4) else menus h4)"
      by (auto simp: create_new_engine_def)
    with m ui st Inr show ?thesis
      by (auto simp: live_sessions_def disabled_markers_def one_affordance_def
                     holds_affordance_def menu_exists_def count_list_0_iff)
  qed
qed

lemma keeps_engine_affordance:
  assumes "current_engine h' = current_engine h"
    and "menus h' = removeAll ''TankMenuDisabled'' (menus h)"
    and "current_engine h \<noteq> None"
  shows "live_sessions h' + disabled_markers h' = 1 \<and> (engine_menu_exists h \<longrightarrow> one_affordance h')"
proof -
  have c: "live_sessions h' + disabled_markers h' = 1"
    using assms by (auto simp: live_sessions_def disabled_markers_def count_list_0_iff)
  have "one_affordance h'" if "engine_menu_exists h"
  proof -
    from that assms have "holds_affordance h'"
      by (auto simp: engine_menu_exists_def holds_affordance_def menu_exists_def split: option.splits)
    with c show ?thesis by (simp add: one_affordance_def)
  qed
  with c show ?thesis by simp
qed



lemmas scene_eval =
  on_scene_event_cb_def scene_event_body_def rebuild_def teardown_def create_new_engine_def start_engine_def
  init_engine_def init_pyside_def set_project_def post_app_init_def destroy_def destroy_engine_def
  create_tank_disabled_menu_def deleteUI_def menu_exists_def menu_create_def menuItem_def
  scriptJob_def record_call_def displayInfo_def displayError_def log_debug_def log_error_def
  has_ui_def startswith_def seq_def Let_def
  env0_def env_init_fails_def env_old_maya_def env_batch_def h_active_def h_disabled_def h_stale_def
  engA_def ctxA_def ctxB_def status_error_def is_Exception_def
  is_TankError_def is_TankEngineInitError_def handled_def live_sessions_def disabled_markers_def
  error_message_def listening_def fire_event_def

lemmas affordance_eval =
  scene_eval one_affordance_def holds_affordance_def engine_menu_exists_def resolved_def
  without_menu_def

section \<open>Properties of the scene event callback\<close>

text \<open>
  Claim C1, as stated: whenever \<open>on_scene_event_cb\<close> returns, exactly one of an active
  engine holding its menu and the disabled menu exists. This fails in each of the
  following events. With no engine running and the disabled menu shown: an unsaved
  scene, a scene whose pipeline look-up fails with another exception than
  \<open>TankError\<close>, and a scene whose context cannot be computed, all leave neither. With
  an engine running: an unrecognized scene leaves the engine and the disabled menu
  both; a scene of another context for which \<open>start_engine\<close> raises a plain
  \<open>TankError\<close> leaves neither; without user interface the new engine has no menu; and
  an engine that has lost its menu keeps running without one.
\<close>

theorem handler_can_end_with_no_or_two_affordances:
  "one_affordance (h_disabled []) \<and> one_affordance (h_active ''/else/x.ma'')
   \<and> \<not> engine_menu_exists (h_stale ''/proj/a.ma'') \<and> \<not> has_ui env_batch
   \<and> live_sessions (snd (on_scene_event_cb env0 ''tk-maya'' ctxA (h_disabled [])))
     + disabled_markers (snd (on_scene_event_cb env0 ''tk-maya'' ctxA (h_disabled []))) = 0
   \<and> live_sessions (snd (on_scene_event_cb env0 ''tk-maya'' ctxA (h_disabled ''/broken/f.ma'')))
     + disabled_markers (snd (on_scene_event_cb env0 ''tk-maya'' ctxA (h_disabled ''/broken/f.ma''))) = 0
   \<and> live_sessions (snd (on_scene_event_cb env0 ''tk-maya'' ctxA (h_disabled ''/proj/d.ma'')))
     + disabled_markers (snd (on_scene_event_cb env0 ''tk-maya'' ctxA (h_disabled ''/proj/d.ma''))) = 0
   \<and> live_sessions (snd (on_scene_event_cb env0 ''tk-maya'' ctxA (h_active ''/else/x.ma'')))
     + disabled_markers (snd (on_scene_event_cb env0 ''tk-maya'' ctxA (h_active ''/else/x.ma''))) = 2
   \<and> live_sessions (snd (on_scene_event_cb env_old_maya ''tk-maya'' ctxA (h_active ''/proj/b.ma'')))
     + disabled_markers (snd (on_scene_event_cb env_old_maya ''tk-maya'' ctxA (h_active ''/proj/b.ma''))) = 0
   \<and> live_sessions (snd (on_scene_event_cb env_batch ''tk-maya'' ctxA (h_active ''/proj/b.ma''))) = 1
   \<and> \<not> holds_affordance (snd (on_scene_event_cb env_batch ''tk-maya'' ctxA (h_active ''/proj/b.ma'')))
   \<and> live_sessions (snd (on_scene_event_cb env0 ''tk-maya'' ctxA (h_stale ''/proj/a.ma''))) = 1
   \<and> \<not> holds_affordance (snd (on_scene_event_cb env0 ''tk-maya'' ctxA (h_stale ''/proj/a.ma'')))"
  by (simp add: affordance_eval)


text \<open>
  Claim C1, amended: after \<open>on_scene_event_cb\<close> the number of live engines plus the
  number of disabled menus is exactly 1, provided that
  \<^item> when no engine was active, the scene has a location, \<open>tank_from_path\<close> returns or
    raises a \<open>TankError\<close>, and \<open>context_from_path\<close> does not raise;
  \<^item> when an engine was active, \<open>tank_from_path\<close> does not raise a \<open>TankError\<close>;
  \<^item> \<open>start_engine\<close>, when it is reached, returns or raises a \<open>TankEngineInitError\<close>.
  If moreover the menu of the engine that was active existed, and \<open>start_engine\<close> returns
  an engine only where the host has a user interface, then the callback ends with
  either an active engine holding its menu or the disabled menu, never both and never
  neither.
\<close>

theorem affordance_count_after_event:
  assumes g1: "current_engine h = None \<longrightarrow>
                 scene_name h \<noteq> []
                 \<and> (\<forall>e. tank_from_path E (abspath E (scene_name h)) = Inl e \<longrightarrow>
                       exc_type e \<in> set [TankError, TankEngineInitError])
                 \<and> (\<forall>t e. tank_from_path E (abspath E (scene_name h)) = Inr t \<longrightarrow>
                       context_from_path E t (abspath E (scene_name h)) pc \<noteq> Inl e)"
    and g2: "current_engine h \<noteq> None \<longrightarrow> scene_name h \<noteq> [] \<longrightarrow>
               (\<forall>e. tank_from_path E (abspath E (scene_name h)) = Inl e \<longrightarrow>
                  exc_type e \<notin> set [TankError, TankEngineInitError])"
    and g3: "\<forall>t ctx h4 e h5.
               scene_name h \<noteq> [] \<longrightarrow>
               tank_from_path E (abspath E (scene_name h)) = Inr t \<longrightarrow>
               context_from_path E t (abspath E (scene_name h)) pc = Inr ctx \<longrightarrow>
               (current_engine h = None \<or> ctx \<noteq> pc) \<longrightarrow>
               teardown E pc (current_engine h) ctx (resolved E pc h) = (None, h4) \<longrightarrow>
               start_engine E en t ctx h4 = (Inl e, h5) \<longrightarrow> exc_type e = TankEngineInitError"
  shows "live_sessions (snd (on_scene_event_cb E en pc h))
           + disabled_markers (snd (on_scene_event_cb E en pc h)) = 1
       \<and> (engine_menu_exists h
            \<and> (\<forall>t ctx h4 ne h5.
                  scene_name h \<noteq> [] \<longrightarrow>
                  tank_from_path E (abspath E (scene_name h)) = Inr t \<longrightarrow>
                  context_from_path E t (abspath E (scene_name h)) pc = Inr ctx \<longrightarrow>
                  (current_engine h = None \<or> ctx \<noteq> pc) \<longrightarrow>
                  teardown E pc (current_engine h) ctx (resolved E pc h) = (None, h4) \<longrightarrow>
                  start_engine E en t ctx h4 = (Inr ne, h5) \<longrightarrow> has_ui E)
            \<longrightarrow> one_affordance (snd (on_scene_event_cb E en pc h)))"
proof -
  let ?p = "abspath E (scene_name h)"
  let ?b = "snd (scene_event_body E en pc h)"
  let ?M = "''TankMenuDisabled''"
  let ?ui = "\<forall>t ctx h4 ne h5.
                  scene_name h \<noteq> [] \<longrightarrow>
                  tank_from_path E (abspath E (scene_name h)) = Inr t \<longrightarrow>
                  context_from_path E t (abspath E (scene_name h)) pc = Inr ctx \<longrightarrow>
                  (current_engine h = None \<or> ctx \<noteq> pc) \<longrightarrow>
                  teardown E pc (current_engine h) ctx (resolved E pc h) = (None, h4) \<longrightarrow>
                  start_engine E en t ctx h4 = (Inr ne, h5) \<longrightarrow> has_ui E"
  have "live_sessions ?b + disabled_markers ?b = 1
        \<and> (engine_menu_exists h \<and> ?ui \<longrightarrow> one_affordance ?b)"
  proof (cases "scene_name h = []")
    case True
    with g1 have "current_engine h \<noteq> None" by auto
    with True keeps_engine_affordance[of "without_menu ?M h" h] show ?thesis
      by (simp add: body_unsaved)
  next
    case scene: False
    show ?thesis
    proof (cases "tank_from_path E ?p")
      case (Inl e)
      show ?thesis
      proof (cases "is_TankError e")
        case True
        with g2 scene Inl have "current_engine h = None" by (auto simp: is_TankError_def)
        with True scene Inl show ?thesis
          by (auto simp: body_unresolved menuItem_def menu_create_def without_menu_def
                displayInfo_def record_call_def live_sessions_def disabled_markers_def
                one_affordance_def menu_exists_def count_list_0_iff)
      next
        case False
        with g1 scene Inl have ce: "current_engine h \<noteq> None" by (auto simp: is_TankError_def)
        from False scene Inl
        have "?b = record_call (CallTankFromPath ?p) (without_menu ?M h)"
          by (simp add: body_unresolved)
        with ce keeps_engine_affordance[of ?b h] show ?thesis
          by (simp add: record_call_def)
      qed
    next
      case (Inr t)
      note body = body_resolved[OF scene Inr, of en pc]
      show ?thesis
      proof (cases "context_from_path E t ?p pc")
        case (Inl e)
        with g1 scene Inr have ce: "current_engine h \<noteq> None" by auto
        from Inl body have "?b = resolved E pc h" by simp
        with ce keeps_engine_affordance[of ?b h] show ?thesis by simp
      next
        case ctx: (Inr ctx)
        show ?thesis
        proof (cases "current_engine h \<noteq> None \<and> ctx = pc")
          case True
          with ctx body have "?b = resolved E pc h" by simp
          with True keeps_engine_affordance[of ?b h] show ?thesis by simp
        next
          case False
          obtain r4 h4 where td: "teardown E pc (current_engine (resolved E pc h)) ctx (resolved E pc h) = (r4, h4)"
            by (cases "teardown E pc (current_engine (resolved E pc h)) ctx (resolved E pc h)") blast
          note fr = teardown_frame[OF td]
          from td have td': "teardown E pc (current_engine h) ctx (resolved E pc h) = (r4, h4)"
            by simp
          from False have nn: "current_engine h = None \<or> ctx \<noteq> pc" by auto
          show ?thesis
          proof (cases r4)
            case None
            obtain r h' where c: "create_new_engine E en pc t ctx h4 = (r, h')"
              by (cases "create_new_engine E en pc t ctx h4") blast
            from None td' c ctx False body have b: "?b = h'" by auto
            from None fr have ce4: "current_engine h4 = None"
              and m4: "?M \<notin> set (menus h4)" by auto
            from td' None have td0: "teardown E pc (current_engine h) ctx (resolved E pc h) = (None, h4)"
              by simp
            have g: "\<forall>e h5. start_engine E en t ctx h4 = (Inl e, h5) \<longrightarrow> is_TankEngineInitError e"
              using g3[rule_format, OF scene Inr ctx nn td0] by (simp add: is_TankEngineInitError_def)
            have u: "\<forall>ne h5. start_engine E en t ctx h4 = (Inr ne, h5) \<longrightarrow> has_ui E" if "?ui"
              using that[rule_format, OF scene Inr ctx nn td0] by blast
            from create_new_engine_affordance[OF c ce4 m4 g]
            have cnt: "live_sessions h' + disabled_markers h' = 1"
              and aff: "(\<forall>ne h5. start_engine E en t ctx h4 = (Inr ne, h5) \<longrightarrow> has_ui E)
                          \<longrightarrow> one_affordance h'"
              by blast+
            show ?thesis
            proof (intro conjI impI)
              show "live_sessions ?b + disabled_markers ?b = 1" using cnt b by simp
            next
              assume "engine_menu_exists h \<and> ?ui"
              then have "?ui" by (rule conjunct2)
              from u[OF this] aff b show "one_affordance ?b" by simp
            qed
          next
            case (Some e)
            with td' ctx False body have b: "?b = h4" by auto
            from Some fr have k: "current_engine h4 = current_engine h" "current_engine h \<noteq> None"
              "menus h4 = removeAll ?M (menus h)" "\<not> holds_affordance (resolved E pc h)"
              by auto
            have "\<not> engine_menu_exists h"
            proof
              assume "engine_menu_exists h"
              with k(2) have "holds_affordance (resolved E pc h)"
                by (auto simp: engine_menu_exists_def holds_affordance_def menu_exists_def
                      split: option.splits)
              with k(4) show False by simp
            qed
            with keeps_engine_affordance[of h4 h] k b show ?thesis by simp
          qed
        qed
      qed
    qed
  qed
  then show ?thesis by (simp add: cb_one_affordance)
qed

theorem affordance_count_after_event_witness:
  "engine_menu_exists (h_active ''/proj/b.ma'') \<and> has_ui env0
   \<and> holds_affordance (snd (on_scene_event_cb env0 ''tk-maya'' ctxA (h_active ''/proj/b.ma'')))
   \<and> one_affordance (snd (on_scene_event_cb env0 ''tk-maya'' ctxA (h_active ''/proj/b.ma'')))
   \<and> engine_menu_exists (h_disabled ''/proj/b.ma'')
   \<and> current_engine (snd (on_scene_event_cb env_init_fails ''tk-maya'' ctxA (h_disabled ''/proj/b.ma''))) = None
   \<and> one_affordance (snd (on_scene_event_cb env_init_fails ''tk-maya'' ctxA (h_disabled ''/proj/b.ma'')))"
proof -
  let ?h = "h_active ''/proj/b.ma''"
  let ?d = "h_disabled ''/proj/b.ma''"
  have pre: "engine_menu_exists ?h" "has_ui env0" "engine_menu_exists ?d"
    by (simp_all add: affordance_eval)
  have g1: "current_engine ?h = None \<longrightarrow>
                 scene_name ?h \<noteq> []
                 \<and> (\<forall>e. tank_from_path env0 (abspath env0 (scene_name ?h)) = Inl e \<longrightarrow>
                       exc_type e \<in> set [TankError, TankEngineInitError])
                 \<and> (\<forall>t e. tank_from_path env0 (abspath env0 (scene_name ?h)) = Inr t \<longrightarrow>
                       context_from_path env0 t (abspath env0 (scene_name ?h)) ctxA \<noteq> Inl e)"
    by (simp add: h_active_def)
  have g2: "current_engine ?h \<noteq> None \<longrightarrow> scene_name ?h \<noteq> [] \<longrightarrow>
               (\<forall>e. tank_from_path env0 (abspath env0 (scene_name ?h)) = Inl e \<longrightarrow>
                  exc_type e \<notin> set [TankError, TankEngineInitError])"
    by (simp add: h_active_def env0_def)
  have g3: "\<forall>t ctx h4 e h5.
               scene_name ?h \<noteq> [] \<longrightarrow>
               tank_from_path env0 (abspath env0 (scene_name ?h)) = Inr t \<longrightarrow>
               context_from_path env0 t (abspath env0 (scene_name ?h)) ctxA = Inr ctx \<longrightarrow>
               (current_engine ?h = None \<or> ctx \<noteq> ctxA) \<longrightarrow>
               teardown env0 ctxA (current_engine ?h) ctx (resolved env0 ctxA ?h) = (None, h4) \<longrightarrow>
               start_engine env0 ''tk-maya'' t ctx h4 = (Inl e, h5) \<longrightarrow> exc_type e = TankEngineInitError"
    by (simp add: affordance_eval)
  have g4: "\<forall>t ctx h4 ne h5.
               scene_name ?h \<noteq> [] \<longrightarrow>
               tank_from_path env0 (abspath env0 (scene_name ?h)) = Inr t \<longrightarrow>
               context_from_path env0 t (abspath env0 (scene_name ?h)) ctxA = Inr ctx \<longrightarrow>
               (current_engine ?h = None \<or> ctx \<noteq> ctxA) \<longrightarrow>
               teardown env0 ctxA (current_engine ?h) ctx (resolved env0 ctxA ?h) = (None, h4) \<longrightarrow>
               start_engine env0 ''tk-maya'' t ctx h4 = (Inr ne, h5) \<longrightarrow> has_ui env0"
    using pre(2) by simp
  have d1: "current_engine ?d = None \<longrightarrow>
                 scene_name ?d \<noteq> []
                 \<and> (\<forall>e. tank_from_path env_init_fails (abspath env_init_fails (scene_name ?d)) = Inl e \<longrightarrow>
                       exc_type e \<in> set [TankError, TankEngineInitError])
                 \<and> (\<forall>t e. tank_from_path env_init_fails (abspath env_init_fails (scene_name ?d)) = Inr t \<longrightarrow>
                       context_from_path env_init_fails t (abspath env_init_fails (scene_name ?d)) ctxA \<noteq> Inl e)"
    by (simp add: h_disabled_def env0_def env_init_fails_def)
  have d2: "current_engine ?d \<noteq> None \<longrightarrow> scene_name ?d \<noteq> [] \<longrightarrow>
               (\<forall>e. tank_from_path env_init_fails (abspath env_init_fails (scene_name ?d)) = Inl e \<longrightarrow>
                  exc_type e \<notin> set [TankError, TankEngineInitError])"
    by (simp add: h_disabled_def)
  have d3: "\<forall>t ctx h4 e h5.
               scene_name ?d \<noteq> [] \<longrightarrow>
               tank_from_path env_init_fails (abspath env_init_fails (scene_name ?d)) = Inr t \<longrightarrow>
               context_from_path env_init_fails t (abspath env_init_fails (scene_name ?d)) ctxA = Inr ctx \<longrightarrow>
               (current_engine ?d = None \<or> ctx \<noteq> ctxA) \<longrightarrow>
               teardown env_init_fails ctxA (current_engine ?d) ctx (resolved env_init_fails ctxA ?d) = (None, h4) \<longrightarrow>
               start_engine env_init_fails ''tk-maya'' t ctx h4 = (Inl e, h5) \<longrightarrow> exc_type e = TankEngineInitError"
    by (auto simp: affordance_eval)
  have d4: "\<forall>t ctx h4 ne h5.
               scene_name ?d \<noteq> [] \<longrightarrow>
               tank_from_path env_init_fails (abspath env_init_fails (scene_name ?d)) = Inr t \<longrightarrow>
               context_from_path env_init_fails t (abspath env_init_fails (scene_name ?d)) ctxA = Inr ctx \<longrightarrow>
               (current_engine ?d = None \<or> ctx \<noteq> ctxA) \<longrightarrow>
               teardown env_init_fails ctxA (current_engine ?d) ctx (resolved env_init_fails ctxA ?d) = (None, h4) \<longrightarrow>
               start_engine env_init_fails ''tk-maya'' t ctx h4 = (Inr ne, h5) \<longrightarrow> has_ui env_init_fails"
    by (simp add: affordance_eval)
  have a: "holds_affordance (snd (on_scene_event_cb env0 ''tk-maya'' ctxA ?h))"
    by (simp add: affordance_eval)
  have b: "current_engine (snd (on_scene_event_cb env_init_fails ''tk-maya'' ctxA ?d)) = None"
    by (simp add: scene_eval)
  from affordance_count_after_event[OF g1 g2 g3] affordance_count_after_event[OF d1 d2 d3]
       pre g4 d4 a b
  show ?thesis by simp
qed

text \<open>
  Claim C2, as stated: an event for a scene without location leaves whatever engine or
  disabled menu existed exactly as it was. This fails for the disabled menu, which is
  deleted before the scene name is looked at.
\<close>

theorem unsaved_scene_removes_disabled_menu:
  "menu_exists ''TankMenuDisabled'' (h_disabled [])
   \<and> \<not> menu_exists ''TankMenuDisabled''
         (snd (on_scene_event_cb env0 ''tk-maya'' ctxA (h_disabled [])))"
  by (simp add: on_scene_event_cb_def scene_event_body_def h_disabled_def menu_exists_def deleteUI_def)

text \<open>
  Claim C2, amended: an event for a scene without location makes no call to the pipeline
  library and changes nothing but the disabled menu, which is deleted if it exists; the
  current engine and the registered callbacks stay as they were.
\<close>

theorem unsaved_scene_keeps_engine:
  assumes "scene_name h = []"
  shows "on_scene_event_cb E en pc h = (None, without_menu ''TankMenuDisabled'' h)
       \<and> current_engine (without_menu ''TankMenuDisabled'' h) = current_engine h
       \<and> calls (without_menu ''TankMenuDisabled'' h) = calls h
       \<and> script_jobs (without_menu ''TankMenuDisabled'' h) = script_jobs h
       \<and> menus (without_menu ''TankMenuDisabled'' h) = removeAll ''TankMenuDisabled'' (menus h)"
  using assms
  by (simp add: on_scene_event_cb_def body_unsaved)

theorem unsaved_scene_keeps_engine_witness:
  "scene_name (h_active []) = []
   \<and> on_scene_event_cb env0 ''tk-maya'' ctxA (h_active []) = (None, h_active [])"
  using unsaved_scene_keeps_engine[of "h_active []" env0 "''tk-maya''" ctxA]
  by (simp add: h_active_def without_menu_def menu_exists_def)

text \<open>
  Claim C3 (after every firing of a one-shot listener, listeners for both event kinds
  are registered again) does not hold of the code. With an engine running and both
  callbacks registered, the host fires \<open>SceneOpened\<close> for an unsaved scene: the callback
  returns without registering anything, and no \<open>SceneOpened\<close> job remains.
\<close>

theorem unsaved_scene_loses_listener:
  "listening SceneOpened (h_active []) \<and> listening SceneSaved (h_active [])
   \<and> fst (fire_event env0 SceneOpened (h_active [])) = None
   \<and> \<not> listening SceneOpened (snd (fire_event env0 SceneOpened (h_active [])))"
  by (simp add: scene_eval)

text \<open>
  Claim C4: when the context is resolved, differs from the previous one and an engine is
  active, \<open>destroy\<close> is called on that engine before \<open>start_engine\<close>; \<open>start_engine\<close>
  is called at most once, after it, and at a moment when no engine is current.
\<close>

theorem destroy_precedes_start:
  assumes "scene_name h \<noteq> []"
    and "tank_from_path E (abspath E (scene_name h)) = Inr t"
    and "context_from_path E t (abspath E (scene_name h)) pc = Inr ctx"
    and "current_engine h = Some ce"
    and "ctx \<noteq> pc"
  shows "\<exists>rest. calls (snd (on_scene_event_cb E en pc h)) =
            calls h @ [CallTankFromPath (abspath E (scene_name h)),
                       CallContextFromPath (abspath E (scene_name h)) pc,
                       CallDestroy ce] @ rest
          \<and> (rest = [] \<or> rest = [CallStartEngine en t ctx None])"
proof -
  let ?p = "abspath E (scene_name h)"
  let ?h3 = "record_call (CallContextFromPath ?p pc)
               (record_call (CallTankFromPath ?p) (without_menu ''TankMenuDisabled'' h))"
  have ce: "current_engine ?h3 = current_engine h"
    by (simp add: record_call_def)
  obtain r h' where b: "scene_event_body E en pc h = (r, h')"
    by (cases "scene_event_body E en pc h") blast
  with assms have "rebuild E en pc (current_engine ?h3) t ctx ?h3 = (r, h')"
    by (simp add: body_located Let_def ce)
  from rebuild_calls[OF this] assms(4) b show ?thesis
    by (auto simp: on_scene_event_cb_calls record_call_def)
qed

theorem destroy_precedes_start_witness:
  "calls (snd (on_scene_event_cb env0 ''tk-maya'' ctxA (h_active ''/proj/b.ma''))) =
     [CallTankFromPath ''/proj/b.ma'', CallContextFromPath ''/proj/b.ma'' ctxA,
      CallDestroy engA, CallStartEngine ''tk-maya'' (Tk ''/proj'') ctxB None]"
proof -
  let ?h = "h_active ''/proj/b.ma''"
  have a: "scene_name ?h \<noteq> []" by (simp add: h_active_def)
  have b: "tank_from_path env0 (abspath env0 (scene_name ?h)) = Inr (Tk ''/proj'')"
    by (simp add: h_active_def env0_def)
  have c: "context_from_path env0 (Tk ''/proj'') (abspath env0 (scene_name ?h)) ctxA = Inr ctxB"
    by (simp add: h_active_def env0_def)
  have d: "current_engine ?h = Some engA" by (simp add: h_active_def)
  have e: "ctxB \<noteq> ctxA" by (simp add: ctxA_def ctxB_def)
  from destroy_precedes_start[OF a b c d e, of "''tk-maya''"] show ?thesis
    by (simp add: scene_eval)
qed

text \<open>
  Claim C5: when the resolved context equals \<open>prev_context\<close> and an engine is active,
  the callback returns with that engine still current; it has made the two resolution
  calls and neither \<open>destroy\<close> nor \<open>start_engine\<close>, and registered nothing.
\<close>

theorem unchanged_context_is_noop:
  assumes "scene_name h \<noteq> []"
    and "tank_from_path E (abspath E (scene_name h)) = Inr t"
    and "context_from_path E t (abspath E (scene_name h)) pc = Inr pc"
    and "current_engine h = Some ce"
  shows "\<exists>h'. on_scene_event_cb E en pc h = (None, h')
       \<and> current_engine h' = Some ce
       \<and> calls h' = calls h @ [CallTankFromPath (abspath E (scene_name h)),
                                CallContextFromPath (abspath E (scene_name h)) pc]
       \<and> script_jobs h' = script_jobs h
       \<and> menus h' = removeAll ''TankMenuDisabled'' (menus h)
       \<and> info h' = info h \<and> errors h' = errors h"
  using assms
  by (simp add: on_scene_event_cb_def body_located Let_def record_call_def)

theorem unchanged_context_is_noop_witness:
  "on_scene_event_cb env0 ''tk-maya'' ctxA (h_active ''/proj/a.ma'') =
     (None, (h_active ''/proj/a.ma'')
        \<lparr>calls := [CallTankFromPath ''/proj/a.ma'', CallContextFromPath ''/proj/a.ma'' ctxA]\<rparr>)"
proof -
  let ?h = "h_active ''/proj/a.ma''"
  have a: "scene_name ?h \<noteq> []" by (simp add: h_active_def)
  have b: "tank_from_path env0 (abspath env0 (scene_name ?h)) = Inr (Tk ''/proj'')"
    by (simp add: h_active_def env0_def)
  have c: "context_from_path env0 (Tk ''/proj'') (abspath env0 (scene_name ?h)) ctxA = Inr ctxA"
    by (simp add: h_active_def env0_def)
  have d: "current_engine ?h = Some engA" by (simp add: h_active_def)
  from unchanged_context_is_noop[OF a b c d, of "''tk-maya''"] show ?thesis
    by (simp add: scene_eval)
qed

text \<open>
  Claim C6, as stated: when either \<open>tank_from_path\<close> or \<open>context_from_path\<close> fails, the
  disabled menu is rendered. Only \<open>tank_from_path\<close> is inside the inner \<^verbatim>\<open>try\<close>: a
  \<open>TankError\<close> from \<open>context_from_path\<close> reaches the outer handler, and no disabled menu
  is rendered.
\<close>

theorem resolver_failure_renders_no_marker:
  "context_from_path env0 (Tk ''/proj'') ''/proj/d.ma'' ctxA
     = Inl (Exn TankError ''No context for /proj/d.ma'' [])
   \<and> disabled_markers (snd (on_scene_event_cb env0 ''tk-maya'' ctxA (h_disabled ''/proj/d.ma''))) = 0"
  by (simp add: on_scene_event_cb_def handled_def is_Exception_def scene_event_body_def env0_def h_disabled_def Let_def
        menu_exists_def deleteUI_def record_call_def displayError_def disabled_markers_def)

text \<open>
  Claim C6, amended: when \<open>tank_from_path\<close> fails with a \<open>TankError\<close>, the callback
  logs the reason, renders the disabled menu and returns normally. When
  \<open>context_from_path\<close> fails, no disabled menu is rendered; if the failure is an
  instance of \<^verbatim>\<open>Exception\<close>, as every resolution error is, the callback also returns
  normally and reports the exception on the error channel.
\<close>

theorem unrecognized_location_is_contained:
  "(scene_name h \<noteq> [] \<and> tank_from_path E (abspath E (scene_name h)) = Inl e \<and> is_TankError e
      \<longrightarrow> (\<exists>h'. on_scene_event_cb E en pc h = (None, h')
             \<and> disabled_markers h' = 1
             \<and> info h' = info h @ [''Tank Engine cannot be started: '' @ exc_value e]
             \<and> errors h' = errors h))
   \<and> (scene_name h \<noteq> [] \<and> tank_from_path E (abspath E (scene_name h)) = Inr t
       \<and> context_from_path E t (abspath E (scene_name h)) pc = Inl e
      \<longrightarrow> disabled_markers (snd (on_scene_event_cb E en pc h)) = 0
          \<and> (is_Exception e \<longrightarrow>
               (\<exists>h'. on_scene_event_cb E en pc h = (None, h')
                 \<and> errors h' = errors h @ [error_message e])))"
  by (auto simp: on_scene_event_cb_def handled_def body_located Let_def record_call_def
        create_tank_disabled_menu_eq displayInfo_def displayError_def menuItem_def menu_create_def
        disabled_markers_def count_list_0_iff without_menu_def menu_exists_def)

theorem unrecognized_location_is_contained_witness:
  "disabled_markers (snd (on_scene_event_cb env0 ''tk-maya'' ctxA (h_active ''/else/x.ma''))) = 1
   \<and> errors (snd (on_scene_event_cb env0 ''tk-maya'' ctxA (h_active ''/proj/c.ma'')))
       = [error_message status_error]"
proof -
  let ?h = "h_active ''/else/x.ma''"
  let ?g = "h_active ''/proj/c.ma''"
  have a: "scene_name ?h \<noteq> [] \<and> tank_from_path env0 (abspath env0 (scene_name ?h))
             = Inl (Exn TankError ''No pipeline for /else/x.ma'' [])
           \<and> is_TankError (Exn TankError ''No pipeline for /else/x.ma'' [])"
    by (simp add: h_active_def env0_def is_TankError_def)
  have b: "scene_name ?g \<noteq> [] \<and> tank_from_path env0 (abspath env0 (scene_name ?g)) = Inr (Tk ''/proj'')
           \<and> context_from_path env0 (Tk ''/proj'') (abspath env0 (scene_name ?g)) ctxA = Inl status_error"
    by (simp add: h_active_def env0_def)
  from a unrecognized_location_is_contained
           [of ?h env0 "Exn TankError ''No pipeline for /else/x.ma'' []" "''tk-maya''" ctxA]
  have 1: "disabled_markers (snd (on_scene_event_cb env0 ''tk-maya'' ctxA ?h)) = 1"
    by auto
  have x: "is_Exception status_error" by (simp add: is_Exception_def status_error_def)
  from b x unrecognized_location_is_contained[of ?g env0 status_error "''tk-maya''" ctxA "Tk ''/proj''"]
  have 2: "errors (snd (on_scene_event_cb env0 ''tk-maya'' ctxA ?g)) = [error_message status_error]"
    by (auto simp: h_active_def)
  from 1 2 show ?thesis by simp
qed






section \<open>Auxiliary facts about the queue\<close>

lemma marks_append [simp]: "marks (xs @ ys) = marks xs @ marks ys"
  by (induction xs rule: marks.induct) simp_all

lemma marks_Step [simp]: "marks (map Step ds) = []"
  by (induction ds) simp_all

lemma report_progress_ok:
  assumes "current_progress s = Some cp" and "maya_progress_bar s = Some b"
  shows "report_progress p s =
           (None, s\<lparr>trace := trace s @ [Step (p - cp)], current_progress := Some p\<rparr>)"
  using assms by (simp add: report_progress_def)

lemma run_actions_ready:
  assumes "ready kw s"
  shows "\<exists>s' ev added. run_actions kw acts s = (None, s')
          \<and> ready kw s'
          \<and> heap s' = heap s
          \<and> maya_progress_bar s' = maya_progress_bar s
          \<and> trace s' = trace s @ ev \<and> marks ev = []
          \<and> queue s' = queue s @ added
          \<and> (list_all is_Report acts \<longrightarrow> added = [])"
  using assms
proof (induction kw acts s rule: run_actions.induct)
  case (1 kw s)
  then show ?case by simp
next
  case (2 kw p acts s)
  from "2.prems" obtain cp b where cp: "current_progress s = Some cp" "maya_progress_bar s = Some b"
    and kw: "kw ''progress_callback'' = Some PReportProgress"
    by (auto simp: ready_def)
  let ?s1 = "s\<lparr>trace := trace s @ [Step (p - cp)], current_progress := Some p\<rparr>"
  have c: "call_progress_callback kw p s = (None, ?s1)"
    using kw report_progress_ok[OF cp] by (simp add: call_progress_callback_def)
  have r: "ready kw ?s1" using "2.prems" by (simp add: ready_def)
  from "2.IH"[OF c[symmetric] refl r] obtain s' ev added where
    "run_actions kw acts ?s1 = (None, s')" "ready kw s'" "heap s' = heap ?s1"
    "maya_progress_bar s' = maya_progress_bar ?s1" "trace s' = trace ?s1 @ ev" "marks ev = []"
    "queue s' = queue ?s1 @ added" "list_all is_Report acts \<longrightarrow> added = []"
    by blast
  then show ?case using c
    by (intro exI[of _ s'] exI[of _ "Step (p - cp) # ev"] exI[of _ added]) simp
next
  case (3 kw n m a acts s)
  let ?s1 = "add_to_queue n m a s"
  have r: "ready kw ?s1" using "3.prems" by (simp add: ready_def add_to_queue_def)
  from "3.IH"[OF r] obtain s' ev added where
    "run_actions kw acts ?s1 = (None, s')" "ready kw s'" "heap s' = heap ?s1"
    "maya_progress_bar s' = maya_progress_bar ?s1" "trace s' = trace ?s1 @ ev" "marks ev = []"
    "queue s' = queue ?s1 @ added"
    by blast
  then show ?case
    by (intro exI[of _ s'] exI[of _ "Warned deprecation # ev"]
              exI[of _ "\<lparr>job_name = n, job_method = m, job_args = a\<rparr> # added"])
       (simp add: add_to_queue_def)
qed

lemma run_actions_reports:
  assumes "kw ''progress_callback'' = Some PReportProgress"
    and "current_progress s = Some cp" and "maya_progress_bar s = Some b"
  shows "run_actions kw (map Report ps) s =
           (None, s\<lparr>trace := trace s @ map Step (deltas cp ps),
                     current_progress := Some (last (cp # ps))\<rparr>)"
  using assms
proof (induction ps arbitrary: s cp)
  case Nil
  then show ?case by simp
next
  case (Cons p ps)
  let ?s1 = "s\<lparr>trace := trace s @ [Step (p - cp)], current_progress := Some p\<rparr>"
  have c: "call_progress_callback kw p s = (None, ?s1)"
    using Cons.prems report_progress_ok[of s cp b p] by (simp add: call_progress_callback_def)
  have "run_actions kw (map Report ps) ?s1 =
          (None, ?s1\<lparr>trace := trace ?s1 @ map Step (deltas p ps),
                      current_progress := Some (last (p # ps))\<rparr>)"
    using Cons.prems by (intro Cons.IH) simp_all
  with c show ?case by simp
qed

lemma expected_marks_injected: "expected_marks (injected hp) item = expected_marks hp item"
  by (auto simp: expected_marks_def injected_def split: pyval.splits option.splits)

lemma expected_marks_cong:
  "injected hp = injected hp' \<Longrightarrow> expected_marks hp item = expected_marks hp' item"
  by (metis expected_marks_injected)

lemma injected_upd:
  "hp a = Some d \<Longrightarrow>
   injected (hp(a \<mapsto> d(''progress_callback'' \<mapsto> PReportProgress))) = injected hp"
  by (auto simp: injected_def fun_eq_iff)

lemma process_item_props:
  assumes "maya_progress_bar s = Some b"
  shows "\<exists>ev added. trace (process_item item s) = trace s @ ev
          \<and> marks ev = expected_marks (heap s) item
          \<and> queue (process_item item s) = queue s @ added
          \<and> (quiet item \<longrightarrow> added = [])
          \<and> maya_progress_bar (process_item item s) = Some b
          \<and> injected (heap (process_item item s)) = injected (heap s)"
proof -
  let ?s1 = "s\<lparr>trace := trace s @ [BeginProgress (job_name item)], current_progress := Some 0\<rparr>"
  let ?err = "Exn TypeError ''object does not support item assignment'' []"
  consider (dict) a d where "job_args item = PRef a" "heap s a = Some d"
    | (nodict) "process_callback item ?s1 = (Some ?err, ?s1)"
               "expected_marks (heap s) item = [MBegin (job_name item), MLogged (job_name item) ?err, MEnd]"
  proof (cases "job_args item")
    case (PRef a)
    then show ?thesis using that
      by (cases "heap s a") (auto simp: process_callback_def expected_marks_def)
  qed (auto simp: process_callback_def expected_marks_def)
  then show ?thesis
  proof cases
    case dict
    let ?kw = "d(''progress_callback'' \<mapsto> PReportProgress)"
    let ?s2 = "?s1\<lparr>heap := (heap ?s1)(a \<mapsto> ?kw)\<rparr>"
    let ?s2c = "?s2\<lparr>trace := trace ?s2 @ [Called (job_name item) ?kw]\<rparr>"
    obtain acts res where m: "run (job_method item) ?kw = (acts, res)"
      by (cases "run (job_method item) ?kw") blast
    have r: "ready ?kw ?s2c" using assms by (simp add: ready_def)
    from run_actions_ready[OF r, of acts] obtain s' ev added where
      ra: "run_actions ?kw acts ?s2c = (None, s')" "heap s' = heap ?s2c"
          "maya_progress_bar s' = maya_progress_bar ?s2c" "trace s' = trace ?s2c @ ev"
          "marks ev = []" "queue s' = queue ?s2c @ added"
          "list_all is_Report acts \<longrightarrow> added = []"
      by blast
    have pc: "process_callback item ?s1 = (res, s')"
      using dict m ra(1) by (simp add: process_callback_def invoke_def)
    have q: "quiet item \<longrightarrow> added = []"
      using ra(7) m by (auto simp: quiet_def dest: spec[of _ ?kw])
    have em: "expected_marks (heap s) item =
                [MBegin (job_name item), MCall (job_name item)]
                @ (case res of Some e \<Rightarrow> [MLogged (job_name item) e] | None \<Rightarrow> []) @ [MEnd]"
      using dict m by (simp add: expected_marks_def)
    have inj: "injected (heap s') = injected (heap s)"
      using ra(2) dict injected_upd[of "heap s" a d] by simp
    show ?thesis
    proof (cases res)
      case None
      with pc ra em q inj assms show ?thesis
        by (intro exI[of _ "[BeginProgress (job_name item), Called (job_name item) ?kw] @ ev @ [EndProgress]"]
                  exI[of _ added])
           (simp add: process_item_def)
    next
      case (Some e)
      with pc ra em q inj assms show ?thesis
        by (intro exI[of _ "[BeginProgress (job_name item), Called (job_name item) ?kw] @ ev
                             @ [LoggedException (job_name item) e, EndProgress]"]
                  exI[of _ added])
           (simp add: process_item_def)
    qed
  next
    case nodict
    with assms show ?thesis
      by (intro exI[of _ "[BeginProgress (job_name item), LoggedException (job_name item) ?err, EndProgress]"]
                exI[of _ "[]"])
         (simp add: process_item_def)
  qed
qed

lemma execute_loop_quiet:
  assumes "list_all quiet (queue s)" and "maya_progress_bar s = Some b"
  shows "\<exists>s' ev. execute_loop s = Some s' \<and> queue s' = []
          \<and> trace s' = trace s @ ev
          \<and> marks ev = concat (map (expected_marks (heap s)) (queue s))"
  using assms
proof (induction "queue s" arbitrary: s)
  case Nil
  then show ?case by (simp add: execute_loop.simps[of s])
next
  case (Cons item rest)
  let ?s0 = "s\<lparr>queue := rest\<rparr>"
  let ?s1 = "process_item item ?s0"
  have bar0: "maya_progress_bar ?s0 = Some b" using Cons.prems by simp
  from Cons.hyps(2)[symmetric] Cons.prems(1) have qi: "quiet item" and qr: "list_all quiet rest"
    by simp_all
  from process_item_props[OF bar0, of item] qi obtain ev where
    p: "trace ?s1 = trace s @ ev" "marks ev = expected_marks (heap s) item"
       "queue ?s1 = rest" "maya_progress_bar ?s1 = Some b"
       "injected (heap ?s1) = injected (heap s)"
    by auto
  have "rest = queue ?s1" using p(3) by simp
  from Cons.hyps(1)[OF this] qr p(3,4) obtain s' ev' where
    l: "execute_loop ?s1 = Some s'" "queue s' = []" "trace s' = trace ?s1 @ ev'"
       "marks ev' = concat (map (expected_marks (heap ?s1)) (queue ?s1))"
    by auto
  have "map (expected_marks (heap ?s1)) rest = map (expected_marks (heap s)) rest"
    using expected_marks_cong[OF p(5)] by simp
  with l p Cons.hyps(2)[symmetric] show ?case
    by (intro exI[of _ s'] exI[of _ "ev @ ev'"]) (simp add: execute_loop.simps[of s])
qed

lemma execute_loop_partial:
  assumes "execute_loop s = Some s'" and "maya_progress_bar s = Some b"
  shows "queue s' = []
       \<and> (\<exists>ev k. trace s' = trace s @ ev
              \<and> marks ev = concat (map (expected_marks (heap s)) (queue s)) @ k)"
proof -
  let ?P = "\<lambda>s s'. maya_progress_bar s = Some b \<longrightarrow>
              queue s' = []
              \<and> (\<exists>ev k. trace s' = trace s @ ev
                    \<and> marks ev = concat (map (expected_marks (heap s)) (queue s)) @ k)"
  have "?P s s'"
  proof (rule execute_loop.raw_induct[where P = ?P, OF _ assms(1)], intro impI)
    fix loop s y
    assume IH: "\<And>x y. loop x = Some y \<Longrightarrow> ?P x y"
      and eq: "(case queue s of [] \<Rightarrow> Some s
                | current_queue_item # rest \<Rightarrow>
                    loop (process_item current_queue_item (s\<lparr>queue := rest\<rparr>))) = Some y"
      and bar: "maya_progress_bar s = Some b"
    show "queue y = []
          \<and> (\<exists>ev k. trace y = trace s @ ev
                \<and> marks ev = concat (map (expected_marks (heap s)) (queue s)) @ k)"
    proof (cases "queue s")
      case Nil
      with eq show ?thesis by simp
    next
      case (Cons item rest)
      let ?s0 = "s\<lparr>queue := rest\<rparr>"
      let ?s1 = "process_item item ?s0"
      have bar0: "maya_progress_bar ?s0 = Some b" using bar by simp
      from process_item_props[OF bar0, of item] obtain ev added where
        p: "trace ?s1 = trace s @ ev" "marks ev = expected_marks (heap s) item"
           "queue ?s1 = rest @ added" "maya_progress_bar ?s1 = Some b"
           "injected (heap ?s1) = injected (heap s)"
        by auto
      from eq Cons have "loop ?s1 = Some y" by simp
      from IH[OF this] p(4) obtain ev' k where
        l: "queue y = []" "trace y = trace ?s1 @ ev'"
           "marks ev' = concat (map (expected_marks (heap ?s1)) (queue ?s1)) @ k"
        by blast
      have "map (expected_marks (heap ?s1)) rest = map (expected_marks (heap s)) rest"
        using expected_marks_cong[OF p(5)] by simp
      with l p Cons show ?thesis
        by (intro conjI exI[of _ "ev @ ev'"]
                  exI[of _ "concat (map (expected_marks (heap ?s1)) added) @ k"])
           simp_all
    qed
  qed
  with assms(2) show ?thesis by simp
qed


lemma report_progress_frame:
  "heap (snd (report_progress p s)) = heap s
   \<and> (\<exists>ev. trace (snd (report_progress p s)) = trace s @ ev \<and> list_all uses_engine_callback ev)"
  by (simp add: report_progress_def Let_def split: option.splits)

lemma run_actions_frame:
  "heap (snd (run_actions kw acts s)) = heap s
   \<and> (\<exists>ev. trace (snd (run_actions kw acts s)) = trace s @ ev \<and> list_all uses_engine_callback ev)"
proof (induction kw acts s rule: run_actions.induct)
  case (1 kw s)
  then show ?case by simp
next
  case (2 kw p acts s)
  obtain r s1 where c: "call_progress_callback kw p s = (r, s1)"
    by (cases "call_progress_callback kw p s") blast
  have f: "heap s1 = heap s \<and> (\<exists>ev. trace s1 = trace s @ ev \<and> list_all uses_engine_callback ev)"
    using c report_progress_frame[of p s]
    by (auto simp: call_progress_callback_def split: option.splits pyval.splits)
  show ?case
  proof (cases r)
    case None
    from "2.IH"[OF c[symmetric] None] f obtain ev ev' where
      "trace s1 = trace s @ ev" "list_all uses_engine_callback ev"
      "trace (snd (run_actions kw acts s1)) = trace s1 @ ev'" "list_all uses_engine_callback ev'"
      "heap (snd (run_actions kw acts s1)) = heap s"
      by auto
    with c None show ?thesis
      by (intro conjI exI[of _ "ev @ ev'"]) simp_all
  next
    case (Some e)
    with c f show ?thesis by simp
  qed
next
  case (3 kw n m a acts s)
  then obtain ev where
    "trace (snd (run_actions kw acts (add_to_queue n m a s))) = trace (add_to_queue n m a s) @ ev"
    "list_all uses_engine_callback ev"
    "heap (snd (run_actions kw acts (add_to_queue n m a s))) = heap (add_to_queue n m a s)"
    by auto
  then show ?case
    by (intro conjI exI[of _ "Warned deprecation # ev"]) (simp_all add: add_to_queue_def)
qed


lemma stamps_refl [simp]: "stamps hp hp"
  by (simp add: stamps_def)

lemma stamps_upd: "hp a = Some d \<Longrightarrow> stamps hp (hp(a \<mapsto> d(''progress_callback'' \<mapsto> PReportProgress)))"
  by (simp add: stamps_def)

lemma stamps_cases:
  assumes "stamps hp hp'" and "hp a = Some d"
  shows "hp' a = Some d \<or> hp' a = Some (d(''progress_callback'' \<mapsto> PReportProgress))"
  using assms(1)[unfolded stamps_def, rule_format, of a] assms(2) by auto

lemma stamps_keeps:
  assumes "stamps hp hp'" and "hp a = Some (d(''progress_callback'' \<mapsto> PReportProgress))"
  shows "hp' a = Some (d(''progress_callback'' \<mapsto> PReportProgress))"
  using stamps_cases[OF assms] by (metis fun_upd_upd)

lemma stamps_trans:
  assumes "stamps hp hp1" and "stamps hp1 hp2"
  shows "stamps hp hp2"
  unfolding stamps_def
proof
  fix a
  show "hp2 a = hp a \<or> (\<exists>d. hp a = Some d \<and> hp2 a = Some (d(''progress_callback'' \<mapsto> PReportProgress)))"
  proof (cases "hp a")
    case None
    with assms(1)[unfolded stamps_def, rule_format, of a] have "hp1 a = None" by auto
    with assms(2)[unfolded stamps_def, rule_format, of a] None show ?thesis by auto
  next
    case (Some d)
    from stamps_cases[OF assms(1) Some] show ?thesis
    proof
      assume "hp1 a = Some d"
      from stamps_cases[OF assms(2) this] Some show ?thesis by auto
    next
      assume "hp1 a = Some (d(''progress_callback'' \<mapsto> PReportProgress))"
      from stamps_keeps[OF assms(2) this] Some show ?thesis by auto
    qed
  qed
qed

lemma run_actions_queue:
  "\<exists>added. queue (snd (run_actions kw acts s)) = queue s @ added"
proof (induction kw acts s rule: run_actions.induct)
  case (1 kw s)
  then show ?case by simp
next
  case (2 kw p acts s)
  obtain r s1 where c: "call_progress_callback kw p s = (r, s1)"
    by (cases "call_progress_callback kw p s") blast
  have f: "queue s1 = queue s"
    using c
    by (auto simp: call_progress_callback_def report_progress_def Let_def
          split: option.splits pyval.splits)
  show ?case
  proof (cases r)
    case None
    with "2.IH"[OF c[symmetric] None] c f show ?thesis by simp
  next
    case (Some e)
    with c f show ?thesis by simp
  qed
next
  case (3 kw n m a acts s)
  then obtain added where
    "queue (snd (run_actions kw acts (add_to_queue n m a s))) = queue (add_to_queue n m a s) @ added"
    by auto
  then show ?case by (simp add: add_to_queue_def)
qed

lemma queue_grows: "\<exists>added. queue (process_item item s) = queue s @ added"
proof -
  let ?s1 = "s\<lparr>trace := trace s @ [BeginProgress (job_name item)], current_progress := Some 0\<rparr>"
  have "\<exists>added. queue (snd (process_callback item ?s1)) = queue s @ added"
  proof (cases "job_args item")
    case (PRef a)
    show ?thesis
    proof (cases "heap s a")
      case None
      with PRef show ?thesis by (simp add: process_callback_def)
    next
      case (Some d)
      let ?kw = "d(''progress_callback'' \<mapsto> PReportProgress)"
      let ?s2c = "?s1\<lparr>heap := (heap ?s1)(a \<mapsto> ?kw),
                      trace := trace ?s1 @ [Called (job_name item) ?kw]\<rparr>"
      obtain acts res where m: "run (job_method item) ?kw = (acts, res)"
        by (cases "run (job_method item) ?kw") blast
      from run_actions_queue[of ?kw acts ?s2c] obtain added where
        "queue (snd (run_actions ?kw acts ?s2c)) = queue s @ added" by auto
      with PRef Some m show ?thesis
        by (cases "run_actions ?kw acts ?s2c")
           (auto simp: process_callback_def invoke_def split: option.splits)
    qed
  qed (simp_all add: process_callback_def)
  then show ?thesis
    by (cases "process_callback item ?s1") (auto simp: process_item_def split: option.splits)
qed

lemma process_item_heap:
  "\<exists>ev. trace (process_item item s) = trace s @ ev
        \<and> list_all uses_engine_callback ev
        \<and> stamps (heap s) (heap (process_item item s))
        \<and> (\<forall>a d. job_args item = PRef a \<longrightarrow> heap s a = Some d \<longrightarrow>
              heap (process_item item s) a = Some (d(''progress_callback'' \<mapsto> PReportProgress))
              \<and> Called (job_name item) (d(''progress_callback'' \<mapsto> PReportProgress)) \<in> set ev)"
proof -
  let ?s1 = "s\<lparr>trace := trace s @ [BeginProgress (job_name item)], current_progress := Some 0\<rparr>"
  let ?err = "Exn TypeError ''object does not support item assignment'' []"
  consider (dict) a d where "job_args item = PRef a" "heap s a = Some d"
    | (nodict) "process_callback item ?s1 = (Some ?err, ?s1)"
               "\<forall>a d. job_args item = PRef a \<longrightarrow> heap s a \<noteq> Some d"
  proof (cases "job_args item")
    case (PRef a)
    then show ?thesis using that
      by (cases "heap s a") (auto simp: process_callback_def)
  qed (auto simp: process_callback_def)
  then show ?thesis
  proof cases
    case dict
    let ?kw = "d(''progress_callback'' \<mapsto> PReportProgress)"
    let ?s2 = "?s1\<lparr>heap := (heap ?s1)(a \<mapsto> ?kw)\<rparr>"
    let ?s2c = "?s2\<lparr>trace := trace ?s2 @ [Called (job_name item) ?kw]\<rparr>"
    obtain acts res where m: "run (job_method item) ?kw = (acts, res)"
      by (cases "run (job_method item) ?kw") blast
    obtain r s' where ra: "run_actions ?kw acts ?s2c = (r, s')"
      by (cases "run_actions ?kw acts ?s2c") blast
    from run_actions_frame[of ?kw acts ?s2c] ra obtain ev where
      f: "heap s' = heap ?s2c" "trace s' = trace ?s2c @ ev" "list_all uses_engine_callback ev"
      by auto
    have pc: "process_callback item ?s1 = (case r of None \<Rightarrow> res | Some e \<Rightarrow> Some e, s')"
      using dict m ra by (simp add: process_callback_def invoke_def split: option.splits)
    let ?tail = "case (case r of None \<Rightarrow> res | Some e \<Rightarrow> Some e) of
                   None \<Rightarrow> [] | Some e \<Rightarrow> [LoggedException (job_name item) e]"
    have t: "trace (process_item item s) =
               trace s @ ([BeginProgress (job_name item), Called (job_name item) ?kw] @ ev @ ?tail @ [EndProgress])"
      and h: "heap (process_item item s) = (heap s)(a \<mapsto> ?kw)"
      using pc f by (auto simp: process_item_def split: option.splits)
    have ok: "list_all uses_engine_callback
               ([BeginProgress (job_name item), Called (job_name item) ?kw] @ ev @ ?tail @ [EndProgress])"
      using f(3) by (auto split: option.splits)
    from t h ok dict stamps_upd[of "heap s" a d] show ?thesis
      by (intro exI[of _ "[BeginProgress (job_name item), Called (job_name item) ?kw] @ ev @ ?tail @ [EndProgress]"])
         auto
  next
    case nodict
    then show ?thesis
      by (intro exI[of _ "[BeginProgress (job_name item), LoggedException (job_name item) ?err, EndProgress]"])
         (simp add: process_item_def)
  qed
qed

lemma execute_loop_injects:
  assumes "execute_loop s = Some s'"
  shows "\<exists>ev. trace s' = trace s @ ev
           \<and> list_all uses_engine_callback ev
           \<and> stamps (heap s) (heap s')
           \<and> (\<forall>item\<in>set (queue s). \<forall>a d. job_args item = PRef a \<longrightarrow> heap s a = Some d \<longrightarrow>
                 heap s' a = Some (d(''progress_callback'' \<mapsto> PReportProgress))
                 \<and> Called (job_name item) (d(''progress_callback'' \<mapsto> PReportProgress)) \<in> set ev)"
proof -
  let ?pc = "''progress_callback''"
  let ?P = "\<lambda>s s'. \<exists>ev. trace s' = trace s @ ev
           \<and> list_all uses_engine_callback ev
           \<and> stamps (heap s) (heap s')
           \<and> (\<forall>item\<in>set (queue s). \<forall>a d. job_args item = PRef a \<longrightarrow> heap s a = Some d \<longrightarrow>
                 heap s' a = Some (d(?pc \<mapsto> PReportProgress))
                 \<and> Called (job_name item) (d(?pc \<mapsto> PReportProgress)) \<in> set ev)"
  show "?P s s'"
  proof (rule execute_loop.raw_induct[where P = ?P, OF _ assms])
    fix loop s y
    assume IH: "\<And>x y. loop x = Some y \<Longrightarrow> ?P x y"
      and eq: "(case queue s of [] \<Rightarrow> Some s
                | current_queue_item # rest \<Rightarrow>
                    loop (process_item current_queue_item (s\<lparr>queue := rest\<rparr>))) = Some y"
    show "?P s y"
    proof (cases "queue s")
      case Nil
      with eq show ?thesis by simp
    next
      case (Cons item rest)
      let ?s0 = "s\<lparr>queue := rest\<rparr>"
      let ?s1 = "process_item item ?s0"
      from process_item_heap[of item ?s0] obtain ev where
        p: "trace ?s1 = trace s @ ev" "list_all uses_engine_callback ev"
           "stamps (heap s) (heap ?s1)"
           "\<forall>a d. job_args item = PRef a \<longrightarrow> heap s a = Some d \<longrightarrow>
              heap ?s1 a = Some (d(?pc \<mapsto> PReportProgress))
              \<and> Called (job_name item) (d(?pc \<mapsto> PReportProgress)) \<in> set ev"
        by auto
      have q1: "\<exists>added. queue ?s1 = rest @ added"
      proof -
        have "\<exists>added. queue (process_item item ?s0) = queue ?s0 @ added"
          by (rule queue_grows)
        then show ?thesis by simp
      qed
      from eq Cons have "loop ?s1 = Some y" by simp
      from IH[OF this] obtain ev' where
        l: "trace y = trace ?s1 @ ev'" "list_all uses_engine_callback ev'"
           "stamps (heap ?s1) (heap y)"
           "\<forall>item\<in>set (queue ?s1). \<forall>a d. job_args item = PRef a \<longrightarrow> heap ?s1 a = Some d \<longrightarrow>
                 heap y a = Some (d(?pc \<mapsto> PReportProgress))
                 \<and> Called (job_name item) (d(?pc \<mapsto> PReportProgress)) \<in> set ev'"
        by blast
      have st: "stamps (heap s) (heap y)" using stamps_trans[OF p(3) l(3)] .
      have each: "heap y a = Some (d(?pc \<mapsto> PReportProgress))
                  \<and> Called (job_name it) (d(?pc \<mapsto> PReportProgress)) \<in> set (ev @ ev')"
        if "it \<in> set (queue s)" "job_args it = PRef a" "heap s a = Some d" for it a d
      proof (cases "it = item")
        case True
        with p(4) that have 1: "heap ?s1 a = Some (d(?pc \<mapsto> PReportProgress))"
          and 2: "Called (job_name it) (d(?pc \<mapsto> PReportProgress)) \<in> set ev"
          by auto
        from stamps_keeps[OF l(3) 1] 2 show ?thesis by simp
      next
        case False
        with that(1) Cons q1 have in1: "it \<in> set (queue ?s1)" by auto
        from stamps_cases[OF p(3) that(3)] show ?thesis
        proof
          assume d1: "heap ?s1 a = Some d"
          from l(4)[rule_format, OF in1 that(2) d1] show ?thesis by simp
        next
          assume d1: "heap ?s1 a = Some (d(?pc \<mapsto> PReportProgress))"
          from l(4)[rule_format, OF in1 that(2) d1] show ?thesis by simp
        qed
      qed
      show ?thesis
        using p(1,2) l(1,2) st each
        by (intro exI[of _ "ev @ ev'"]) auto
    qed
  qed
qed

lemmas queue_eval =
  execute_queue_def execute_loop.simps process_item_def process_callback_def invoke_def
  call_progress_callback_def report_progress_def add_to_queue_def Let_def
  q3_def q0_def export_job_def failing_job_def spawning_job_def expected_marks_def quiet_def
section \<open>Properties of the queue\<close>

text \<open>
  Claim C8: \<open>execute_queue\<close> processes the items in the order they were enqueued, each
  once: the progress bar begins, the work unit is called, an exception it raises is
  logged, the progress bar ends, and the loop goes on with the next item. When no work
  unit adds to the queue while running, \<open>execute_queue\<close> returns and this is all that
  happens. Whenever \<open>execute_queue\<close> returns, the queue is empty and the items that were
  enqueued at the start have been processed in this way, in order, before any other.
\<close>

theorem drain_is_fifo_and_isolates_failures:
  "(list_all quiet (queue s) \<longrightarrow>
      (\<exists>s' ev. execute_queue main_bar s = Some s' \<and> queue s' = []
         \<and> trace s' = trace s @ Warned deprecation # ev
         \<and> marks ev = concat (map (expected_marks (heap s)) (queue s))))
   \<and> (\<forall>s'. execute_queue main_bar s = Some s' \<longrightarrow>
         queue s' = []
         \<and> (\<exists>ev k. trace s' = trace s @ Warned deprecation # ev
               \<and> marks ev = concat (map (expected_marks (heap s)) (queue s)) @ k))"
proof (intro conjI impI allI)
  let ?s = "s\<lparr>trace := trace s @ [Warned deprecation], maya_progress_bar := Some main_bar\<rparr>"
  assume "list_all quiet (queue s)"
  then have "list_all quiet (queue ?s)" by simp
  from execute_loop_quiet[OF this, of main_bar]
  show "\<exists>s' ev. execute_queue main_bar s = Some s' \<and> queue s' = []
         \<and> trace s' = trace s @ Warned deprecation # ev
         \<and> marks ev = concat (map (expected_marks (heap s)) (queue s))"
    by (auto simp: execute_queue_def)
next
  let ?s = "s\<lparr>trace := trace s @ [Warned deprecation], maya_progress_bar := Some main_bar\<rparr>"
  fix s' assume "execute_queue main_bar s = Some s'"
  then have "execute_loop ?s = Some s'" by (simp add: execute_queue_def)
  from execute_loop_partial[OF this, of main_bar]
  show "queue s' = []" by simp
next
  let ?s = "s\<lparr>trace := trace s @ [Warned deprecation], maya_progress_bar := Some main_bar\<rparr>"
  fix s' assume "execute_queue main_bar s = Some s'"
  then have "execute_loop ?s = Some s'" by (simp add: execute_queue_def)
  from execute_loop_partial[OF this, of main_bar]
  show "\<exists>ev k. trace s' = trace s @ Warned deprecation # ev
               \<and> marks ev = concat (map (expected_marks (heap s)) (queue s)) @ k"
    by auto
qed

theorem drain_is_fifo_and_isolates_failures_witness:
  "list_all quiet (queue q3)
   \<and> map_option (\<lambda>s'. marks (trace s')) (execute_queue ''mainProgressBar'' q3) =
       Some [MBegin ''A'', MCall ''A'', MEnd,
             MBegin ''B'', MCall ''B'', MLogged ''B'' (Exn RuntimeError ''disk full'' []), MEnd,
             MBegin ''C'', MCall ''C'', MEnd]
   \<and> map_option queue
        (execute_queue ''mainProgressBar'' (add_to_queue ''S'' spawning_job (PRef 0) q0)) = Some []
   \<and> map_option (\<lambda>s'. marks (trace s'))
        (execute_queue ''mainProgressBar'' (add_to_queue ''S'' spawning_job (PRef 0) q0)) =
       Some [MBegin ''S'', MCall ''S'', MEnd, MBegin ''C'', MCall ''C'', MEnd]"
proof -
  have a: "list_all quiet (queue q3)" by (simp add: queue_eval)
  let ?qs = "add_to_queue ''S'' spawning_job (PRef 0) q0"
  have b: "execute_queue ''mainProgressBar'' ?qs \<noteq> None"
    by (simp add: queue_eval)
  from drain_is_fifo_and_isolates_failures[of q3 "''mainProgressBar''"] a
  have 1: "map_option (\<lambda>s'. marks (trace s')) (execute_queue ''mainProgressBar'' q3) =
       Some [MBegin ''A'', MCall ''A'', MEnd,
             MBegin ''B'', MCall ''B'', MLogged ''B'' (Exn RuntimeError ''disk full'' []), MEnd,
             MBegin ''C'', MCall ''C'', MEnd]"
    by (auto simp: q3_def q0_def add_to_queue_def expected_marks_def export_job_def failing_job_def)
  from drain_is_fifo_and_isolates_failures[of ?qs "''mainProgressBar''"] b
  have 2: "map_option queue (execute_queue ''mainProgressBar'' ?qs) = Some []"
    by auto
  have 3: "map_option (\<lambda>s'. marks (trace s')) (execute_queue ''mainProgressBar'' ?qs) =
       Some [MBegin ''S'', MCall ''S'', MEnd, MBegin ''C'', MCall ''C'', MEnd]"
    by (simp add: queue_eval)
  from a 1 2 3 show ?thesis by simp
qed


text \<open>
  Claim C9: \<open>report_progress\<close> steps the progress bar by the difference between the
  given percentage and the last one stored, and stores the given one. The stored value
  is 0 when an item starts, so an item that reports \<open>ps\<close> steps the bar by
  \<open>deltas 0 ps\<close>; reports of 0, 40 and 100 step it by 0, 40 and 60.
\<close>

theorem report_progress_applies_delta:
  "(current_progress s = Some cp \<and> maya_progress_bar s = Some b \<longrightarrow>
      report_progress p s =
        (None, s\<lparr>trace := trace s @ [Step (p - cp)], current_progress := Some p\<rparr>))
   \<and> (maya_progress_bar s = Some b \<and> job_args item = PRef a \<and> heap s a = Some d
       \<and> run (job_method item) (d(''progress_callback'' \<mapsto> PReportProgress)) = (map Report ps, None)
       \<longrightarrow> trace (process_item item s) =
             trace s @ [BeginProgress (job_name item),
                        Called (job_name item) (d(''progress_callback'' \<mapsto> PReportProgress))]
                     @ map Step (deltas 0 ps) @ [EndProgress])
   \<and> deltas 0 [0, 40, 100] = [0, 40, 60]"
proof (intro conjI impI)
  assume "current_progress s = Some cp \<and> maya_progress_bar s = Some b"
  then show "report_progress p s =
        (None, s\<lparr>trace := trace s @ [Step (p - cp)], current_progress := Some p\<rparr>)"
    by (simp add: report_progress_ok)
next
  let ?kw = "d(''progress_callback'' \<mapsto> PReportProgress)"
  let ?s2 = "s\<lparr>trace := trace s @ [BeginProgress (job_name item)], current_progress := Some 0,
               heap := (heap s)(a \<mapsto> ?kw),
               trace := trace s @ [BeginProgress (job_name item), Called (job_name item) ?kw]\<rparr>"
  assume h: "maya_progress_bar s = Some b \<and> job_args item = PRef a \<and> heap s a = Some d
       \<and> run (job_method item) ?kw = (map Report ps, None)"
  have "run_actions ?kw (map Report ps) ?s2 =
          (None, ?s2\<lparr>trace := trace ?s2 @ map Step (deltas 0 ps),
                      current_progress := Some (last (0 # ps))\<rparr>)"
    using h by (intro run_actions_reports[where b = b]) simp_all
  with h show "trace (process_item item s) =
             trace s @ [BeginProgress (job_name item), Called (job_name item) ?kw]
                     @ map Step (deltas 0 ps) @ [EndProgress]"
    by (simp add: process_item_def process_callback_def invoke_def)
next
  show "deltas 0 [0, 40, 100] = [0, 40, 60]" by simp
qed


theorem report_progress_applies_delta_witness:
  "map_option trace (execute_queue ''mainProgressBar'' (add_to_queue ''A'' export_job (PRef 0) q0)) =
     Some [Warned deprecation, Warned deprecation, BeginProgress ''A'',
           Called ''A'' [''path'' \<mapsto> PStr ''/proj/out'', ''progress_callback'' \<mapsto> PReportProgress],
           Step 0, Step 40, Step 60, EndProgress]"
proof -
  let ?item = "\<lparr>job_name = ''A'', job_method = export_job, job_args = PRef 0\<rparr>"
  let ?s = "q0\<lparr>trace := [Warned deprecation, Warned deprecation],
               maya_progress_bar := Some ''mainProgressBar''\<rparr>"
  have e: "execute_queue ''mainProgressBar'' (add_to_queue ''A'' export_job (PRef 0) q0)
           = Some (process_item ?item ?s)"
    by (simp add: execute_queue_def execute_loop.simps add_to_queue_def q0_def process_item_def
          process_callback_def invoke_def export_job_def call_progress_callback_def
          report_progress_def Let_def)
  have h: "maya_progress_bar ?s = Some ''mainProgressBar'' \<and> job_args ?item = PRef 0
           \<and> heap ?s 0 = Some [''path'' \<mapsto> PStr ''/proj/out'']
           \<and> run (job_method ?item) ([''path'' \<mapsto> PStr ''/proj/out''](''progress_callback'' \<mapsto> PReportProgress))
               = (map Report [0, 40, 100], None)"
    by (simp add: q0_def export_job_def)
  from report_progress_applies_delta[of ?s _ _ _ ?item 0 "[''path'' \<mapsto> PStr ''/proj/out'']" "[0, 40, 100]"] h e
  show ?thesis by (simp add: q0_def)
qed


text \<open>
  Claim C10: \<open>add_to_queue\<close> stores the reference to the caller's dictionary, not a
  copy. \<open>execute_queue\<close> returns when no work unit adds to the queue, and whenever it
  returns, the dictionary of every item that was in the queue holds the engine's
  \<open>report_progress\<close> under \<open>progress_callback\<close>, whatever it held there before, and is
  otherwise unchanged; the item's work unit has been called with these keyword
  arguments, and no work unit has been called with another \<open>progress_callback\<close>.
\<close>

theorem progress_callback_injected_in_place:
  "queue (add_to_queue n m v s) = queue s @ [\<lparr>job_name = n, job_method = m, job_args = v\<rparr>]
   \<and> heap (add_to_queue n m v s) = heap s
   \<and> (list_all quiet (queue s) \<longrightarrow> (\<exists>s'. execute_queue main_bar s = Some s'))
   \<and> (\<forall>s'. execute_queue main_bar s = Some s' \<longrightarrow>
         list_all uses_engine_callback (drop (length (trace s)) (trace s'))
         \<and> stamps (heap s) (heap s')
         \<and> (\<forall>item\<in>set (queue s). \<forall>a d. job_args item = PRef a \<longrightarrow> heap s a = Some d \<longrightarrow>
               heap s' a = Some (d(''progress_callback'' \<mapsto> PReportProgress))
               \<and> Called (job_name item) (d(''progress_callback'' \<mapsto> PReportProgress))
                    \<in> set (drop (length (trace s)) (trace s'))))"
proof (intro conjI impI allI)
  show "queue (add_to_queue n m v s) = queue s @ [\<lparr>job_name = n, job_method = m, job_args = v\<rparr>]"
    and "heap (add_to_queue n m v s) = heap s"
    by (simp_all add: add_to_queue_def)
next
  let ?s = "s\<lparr>trace := trace s @ [Warned deprecation], maya_progress_bar := Some main_bar\<rparr>"
  assume "list_all quiet (queue s)"
  then have "list_all quiet (queue ?s)" by simp
  from execute_loop_quiet[OF this, of main_bar]
  show "\<exists>s'. execute_queue main_bar s = Some s'"
    by (auto simp: execute_queue_def)
next
  let ?s = "s\<lparr>trace := trace s @ [Warned deprecation], maya_progress_bar := Some main_bar\<rparr>"
  fix s' assume "execute_queue main_bar s = Some s'"
  then have "execute_loop ?s = Some s'" by (simp add: execute_queue_def)
  from execute_loop_injects[OF this] obtain ev where
    l: "trace s' = trace s @ Warned deprecation # ev" "list_all uses_engine_callback ev"
       "stamps (heap s) (heap s')"
       "\<forall>item\<in>set (queue s). \<forall>a d. job_args item = PRef a \<longrightarrow> heap s a = Some d \<longrightarrow>
          heap s' a = Some (d(''progress_callback'' \<mapsto> PReportProgress))
          \<and> Called (job_name item) (d(''progress_callback'' \<mapsto> PReportProgress)) \<in> set ev"
    by auto
  show "list_all uses_engine_callback (drop (length (trace s)) (trace s'))"
    using l(1,2) by simp
  show "stamps (heap s) (heap s')" using l(3) .
  show "\<forall>item\<in>set (queue s). \<forall>a d. job_args item = PRef a \<longrightarrow> heap s a = Some d \<longrightarrow>
               heap s' a = Some (d(''progress_callback'' \<mapsto> PReportProgress))
               \<and> Called (job_name item) (d(''progress_callback'' \<mapsto> PReportProgress))
                    \<in> set (drop (length (trace s)) (trace s'))"
    using l(1,4) by simp
qed

theorem progress_callback_injected_in_place_witness:
  "list_all quiet (queue q3)
   \<and> map_option (\<lambda>d. d ''progress_callback'') (heap q3 1) = Some (Some (PStr ''mine''))
   \<and> map_option (\<lambda>d. d ''progress_callback'') (heap q3 0) = Some None
   \<and> map_option (\<lambda>s'. map_option (\<lambda>d. d ''progress_callback'') (heap s' 1))
        (execute_queue ''mainProgressBar'' q3) = Some (Some (Some PReportProgress))
   \<and> map_option (\<lambda>s'. map_option (\<lambda>d. d ''progress_callback'') (heap s' 0))
        (execute_queue ''mainProgressBar'' q3) = Some (Some (Some PReportProgress))
   \<and> map_option (\<lambda>s'. list_all uses_engine_callback (drop 3 (trace s')))
        (execute_queue ''mainProgressBar'' q3) = Some True"
proof -
  let ?B = "\<lparr>job_name = ''B'', job_method = failing_job, job_args = PRef 1\<rparr>"
  let ?A = "\<lparr>job_name = ''A'', job_method = export_job, job_args = PRef 0\<rparr>"
  have q: "list_all quiet (queue q3)" by (simp add: queue_eval)
  have h: "heap q3 1 = Some [''progress_callback'' \<mapsto> PStr ''mine'']"
          "heap q3 0 = Some [''path'' \<mapsto> PStr ''/proj/out'']"
          "?B \<in> set (queue q3)" "?A \<in> set (queue q3)" "length (trace q3) = 3"
    by (simp_all add: q3_def q0_def add_to_queue_def)
  from progress_callback_injected_in_place[of _ _ _ q3 "''mainProgressBar''"] q obtain s' where
    e: "execute_queue ''mainProgressBar'' q3 = Some s'" by blast
  from progress_callback_injected_in_place[of _ _ _ q3 "''mainProgressBar''"] e
  have all: "list_all uses_engine_callback (drop (length (trace q3)) (trace s'))"
    and each: "\<forall>item\<in>set (queue q3). \<forall>a d. job_args item = PRef a \<longrightarrow> heap q3 a = Some d \<longrightarrow>
               heap s' a = Some (d(''progress_callback'' \<mapsto> PReportProgress))"
    by blast+
  from each[rule_format, OF h(3) _ h(1)] have 1: "heap s' 1 = Some ([''progress_callback'' \<mapsto> PStr ''mine''](''progress_callback'' \<mapsto> PReportProgress))"
    by simp
  from each[rule_format, OF h(4) _ h(2)] have 0: "heap s' 0 = Some ([''path'' \<mapsto> PStr ''/proj/out''](''progress_callback'' \<mapsto> PReportProgress))"
    by simp
  from all h(5) have t: "list_all uses_engine_callback (drop 3 (trace s'))" by simp
  from q h(1,2) e 0 1 t show ?thesis by simp
qed
end
